theory Spec2Isabelle
  imports Main "HOL-Library.Word" "HOL-Library.List_Lexorder" "HOL-Library.AList"
begin

unbundle bit_operations_syntax

section \<open>JavaScript strings, values and objects\<close>

text \<open>
  A JavaScript string is a sequence of 16-bit UTF-16 code units; nothing forces surrogates
  to be paired. The order on strings used by \<^verbatim>\<open>Array.prototype.sort()\<close> without a comparator
  is the lexicographic order on code units, which is the order of \<^typ>\<open>16 word list\<close>.
\<close>

type_synonym code_unit = "16 word"
type_synonym jsstring = "code_unit list"

definition js :: "string \<Rightarrow> jsstring" where
  "js s = map (\<lambda>c. of_nat (of_char c)) s"

text \<open>
  The values that reach the code under study: strings, and \<^verbatim>\<open>undefined\<close> for a property
  that a destructuring pattern or a property read does not find.
\<close>

datatype jsval = Undefined | Str jsstring

fun ToString :: "jsval \<Rightarrow> jsstring" where
  "ToString Undefined = js ''undefined''"
| "ToString (Str s) = s"

fun ToBoolean :: "jsval \<Rightarrow> bool" where
  "ToBoolean Undefined = False"
| "ToBoolean (Str s) = (s \<noteq> [])"

text \<open>
  An object is the list of its own enumerable string-keyed properties in property order,
  with pairwise distinct keys; its prototype is \<^verbatim>\<open>Object.prototype\<close>. Assigning to a
  property that exists keeps its position, assigning to a new one appends it: this is
  \<^const>\<open>AList.update\<close>. (The engine moves array-index keys such as \<^verbatim>\<open>"0"\<close> to the front;
  the only consumer of the order here sorts the keys, so that rule is not modelled.)

  \<open>Get\<close> is the property read for an own key and for a key that \<^verbatim>\<open>Object.prototype\<close> does
  not define; the code reads no other. \<open>OrdinarySet\<close> is the assignment \<^verbatim>\<open>obj[key] = v\<close>:
  for the key \<^verbatim>\<open>__proto__\<close>, when the object has no own property of that name, it
  reaches the accessor of \<^verbatim>\<open>Object.prototype\<close>, whose setter ignores a value that is
  neither an object nor \<^verbatim>\<open>null\<close>, so the object keeps its properties. An own property
  \<^verbatim>\<open>__proto__\<close> is what \<^verbatim>\<open>JSON.parse\<close> makes of that key.
\<close>

type_synonym jsobject = "(jsstring \<times> jsval) list"

definition Get :: "jsobject \<Rightarrow> jsstring \<Rightarrow> jsval" where
  "Get obj key = (case map_of obj key of None \<Rightarrow> Undefined | Some v \<Rightarrow> v)"

definition Object_keys :: "jsobject \<Rightarrow> jsstring list" where
  "Object_keys obj = map fst obj"

definition OrdinarySet :: "jsobject \<Rightarrow> jsstring \<Rightarrow> jsval \<Rightarrow> jsobject" where
  "OrdinarySet obj key v =
     (if key = js ''__proto__'' \<and> key \<notin> set (Object_keys obj) then obj
      else AList.update key v obj)"

definition Object_assign :: "jsobject \<Rightarrow> jsobject list \<Rightarrow> jsobject" where
  "Object_assign target sources =
     foldl (\<lambda>to from. foldl (\<lambda>to key. OrdinarySet to key (Get from key)) to (Object_keys from))
       target sources"

datatype error = TypeError string | URIError

definition bind :: "error + 'a \<Rightarrow> ('a \<Rightarrow> error + 'b) \<Rightarrow> error + 'b" where
  "bind r f = (case r of Inl e \<Rightarrow> Inl e | Inr x \<Rightarrow> f x)"

section \<open>\<^verbatim>\<open>encodeURIComponent\<close> (ECMA-262, Encode)\<close>

definition uriUnescaped :: "code_unit \<Rightarrow> bool" where
  "uriUnescaped c =
     (let n = unat c
      in (0x41 \<le> n \<and> n \<le> 0x5A) \<or> (0x61 \<le> n \<and> n \<le> 0x7A) \<or> (0x30 \<le> n \<and> n \<le> 0x39)
         \<or> c \<in> set (js ''-_.!~*'()''))"

definition isLeadingSurrogate :: "code_unit \<Rightarrow> bool" where
  "isLeadingSurrogate c = (0xD800 \<le> unat c \<and> unat c \<le> 0xDBFF)"

definition isTrailingSurrogate :: "code_unit \<Rightarrow> bool" where
  "isTrailingSurrogate c = (0xDC00 \<le> unat c \<and> unat c \<le> 0xDFFF)"

definition UTF16SurrogatePairToCodePoint :: "code_unit \<Rightarrow> code_unit \<Rightarrow> nat" where
  "UTF16SurrogatePairToCodePoint lead trail =
     (unat lead - 0xD800) * 0x400 + (unat trail - 0xDC00) + 0x10000"

definition utf8 :: "nat \<Rightarrow> nat list" where
  "utf8 cp =
     (if cp < 0x80 then [cp]
      else if cp < 0x800 then [0xC0 + cp div 64, 0x80 + cp mod 64]
      else if cp < 0x10000 then [0xE0 + cp div 4096, 0x80 + cp div 64 mod 64, 0x80 + cp mod 64]
      else [0xF0 + cp div 262144, 0x80 + cp div 4096 mod 64, 0x80 + cp div 64 mod 64,
            0x80 + cp mod 64])"

definition hexDigit :: "nat \<Rightarrow> code_unit" where
  "hexDigit n = of_nat (if n < 10 then 0x30 + n else 0x37 + n)"

definition percent :: "nat \<Rightarrow> jsstring" where
  "percent octet = [0x25, hexDigit (octet div 16), hexDigit (octet mod 16)]"

definition percentOctets :: "nat \<Rightarrow> jsstring" where
  "percentOctets cp = concat (map percent (utf8 cp))"

fun Encode :: "jsstring \<Rightarrow> error + jsstring" where
  "Encode [] = Inr []"
| "Encode (c # cs) =
     (if uriUnescaped c then bind (Encode cs) (\<lambda>r. Inr (c # r))
      else if isLeadingSurrogate c then
        (case cs of
           [] \<Rightarrow> Inl URIError
         | d # ds \<Rightarrow>
             if isTrailingSurrogate d
             then bind (Encode ds)
                    (\<lambda>r. Inr (percentOctets (UTF16SurrogatePairToCodePoint c d) @ r))
             else Inl URIError)
      else if isTrailingSurrogate c then Inl URIError
      else bind (Encode cs) (\<lambda>r. Inr (percentOctets (unat c) @ r)))"

definition encodeURIComponent :: "jsval \<Rightarrow> error + jsstring" where
  "encodeURIComponent v = Encode (ToString v)"

text \<open>\<^verbatim>\<open>s.replace(/c/g, r)\<close> for a pattern that is one literal character.\<close>

definition replace :: "code_unit \<Rightarrow> jsstring \<Rightarrow> jsstring \<Rightarrow> jsstring" where
  "replace c r s = concat (map (\<lambda>x. if x = c then r else [x]) s)"

section \<open>The escaper (\<^verbatim>\<open>src/index.js\<close>, lines 72 to 79)\<close>

definition escaper :: "jsval \<Rightarrow> error + jsstring" where
  "escaper str =
     bind (encodeURIComponent str) (\<lambda>s.
       Inr (replace 0x2A (js ''%2A'')
             (replace 0x29 (js ''%29'')
               (replace 0x28 (js ''%28'')
                 (replace 0x27 (js ''%27'')
                   (replace 0x21 (js ''%21'') s))))))"

section \<open>Node's \<^verbatim>\<open>crypto\<close>: HMAC-SHA1 with a base64 digest\<close>

text \<open>
  \<^verbatim>\<open>crypto.createHmac('sha1', key).update(data).digest('base64')\<close> with string arguments:
  both strings are written as UTF-8, an unpaired surrogate as U+FFFD. SHA-1 is FIPS 180-4,
  HMAC is RFC 2104, base64 is RFC 4648; octets and 32-bit words are naturals, with the
  wrap-around written out.
\<close>

fun utf8Write :: "jsstring \<Rightarrow> nat list" where
  "utf8Write [] = []"
| "utf8Write (c # cs) =
     (if isLeadingSurrogate c then
        (case cs of
           [] \<Rightarrow> [0xEF, 0xBF, 0xBD]
         | d # ds \<Rightarrow>
             if isTrailingSurrogate d
             then utf8 (UTF16SurrogatePairToCodePoint c d) @ utf8Write ds
             else [0xEF, 0xBF, 0xBD] @ utf8Write cs)
      else if isTrailingSurrogate c then [0xEF, 0xBF, 0xBD] @ utf8Write cs
      else utf8 (unat c) @ utf8Write cs)"

definition add32 :: "nat \<Rightarrow> nat \<Rightarrow> nat" where
  "add32 x y = (x + y) mod 4294967296"

definition rotl :: "nat \<Rightarrow> nat \<Rightarrow> nat" where
  "rotl n w = (w * 2 ^ n) mod 4294967296 + w div 2 ^ (32 - n)"

definition be32 :: "nat list \<Rightarrow> nat" where
  "be32 bs = foldl (\<lambda>acc b. acc * 256 + b) 0 bs"

definition bytes32 :: "nat \<Rightarrow> nat list" where
  "bytes32 w = [w div 16777216 mod 256, w div 65536 mod 256, w div 256 mod 256, w mod 256]"

text \<open>\<open>blocks n xs\<close> cuts \<open>xs\<close> into pieces of \<open>n + 1\<close> elements.\<close>

fun blocks :: "nat \<Rightarrow> 'a list \<Rightarrow> 'a list list" where
  "blocks n [] = []"
| "blocks n (x # xs) = take (Suc n) (x # xs) # blocks n (drop n xs)"

definition sha1_pad :: "nat list \<Rightarrow> nat list" where
  "sha1_pad m =
     m @ [0x80] @ replicate ((119 - length m mod 64) mod 64) 0
       @ bytes32 (8 * length m div 4294967296) @ bytes32 (8 * length m)"

text \<open>The message schedule, newest word first.\<close>

fun expand :: "nat \<Rightarrow> nat list \<Rightarrow> nat list" where
  "expand 0 ws = ws"
| "expand (Suc n) ws =
     expand n (rotl 1 (ws ! 2 XOR ws ! 7 XOR ws ! 13 XOR ws ! 15) # ws)"

definition sha1_f :: "nat \<Rightarrow> nat \<Rightarrow> nat \<Rightarrow> nat \<Rightarrow> nat" where
  "sha1_f t b c d =
     (if t < 20 then (b AND c) OR ((b XOR 0xFFFFFFFF) AND d)
      else if t < 40 then b XOR c XOR d
      else if t < 60 then (b AND c) OR (b AND d) OR (c AND d)
      else b XOR c XOR d)"

definition sha1_k :: "nat \<Rightarrow> nat" where
  "sha1_k t =
     (if t < 20 then 0x5A827999 else if t < 40 then 0x6ED9EBA1
      else if t < 60 then 0x8F1BBCDC else 0xCA62C1D6)"

type_synonym sha1_state = "nat \<times> nat \<times> nat \<times> nat \<times> nat"

fun rounds :: "nat \<Rightarrow> nat list \<Rightarrow> sha1_state \<Rightarrow> sha1_state" where
  "rounds t [] s = s"
| "rounds t (w # ws) (a, b, c, d, e) =
     rounds (t + 1) ws
       (add32 (add32 (add32 (add32 (rotl 5 a) (sha1_f t b c d)) e) (sha1_k t)) w,
        a, rotl 30 b, c, d)"

definition compress :: "sha1_state \<Rightarrow> nat list \<Rightarrow> sha1_state" where
  "compress h blk =
     (case h of (h0, h1, h2, h3, h4) \<Rightarrow>
      case rounds 0 (rev (expand 64 (rev (map be32 (blocks 3 blk))))) h of
        (a, b, c, d, e) \<Rightarrow> (add32 h0 a, add32 h1 b, add32 h2 c, add32 h3 d, add32 h4 e))"

definition sha1_init :: sha1_state where
  "sha1_init = (0x67452301, 0xEFCDAB89, 0x98BADCFE, 0x10325476, 0xC3D2E1F0)"

definition sha1 :: "nat list \<Rightarrow> nat list" where
  "sha1 m =
     (case foldl compress sha1_init (blocks 63 (sha1_pad m)) of
        (a, b, c, d, e) \<Rightarrow> concat (map bytes32 [a, b, c, d, e]))"

definition hmac_sha1 :: "nat list \<Rightarrow> nat list \<Rightarrow> nat list" where
  "hmac_sha1 key msg =
     (let k0 = (if length key > 64 then sha1 key else key);
          k = k0 @ replicate (64 - length k0) 0
      in sha1 (map (\<lambda>b. b XOR 0x5C) k @ sha1 (map (\<lambda>b. b XOR 0x36) k @ msg)))"

definition base64Char :: "nat \<Rightarrow> code_unit" where
  "base64Char n =
     of_nat (if n < 26 then 0x41 + n else if n < 52 then 0x61 + (n - 26)
             else if n < 62 then 0x30 + (n - 52) else if n = 62 then 0x2B else 0x2F)"

fun base64 :: "nat list \<Rightarrow> jsstring" where
  "base64 (a # b # c # rest) =
     [base64Char (a div 4), base64Char (a mod 4 * 16 + b div 16),
      base64Char (b mod 16 * 4 + c div 64), base64Char (c mod 64)] @ base64 rest"
| "base64 [a, b] =
     [base64Char (a div 4), base64Char (a mod 4 * 16 + b div 16), base64Char (b mod 16 * 4),
      0x3D]"
| "base64 [a] = [base64Char (a div 4), base64Char (a mod 4 * 16), 0x3D, 0x3D]"
| "base64 [] = []"

definition createHmac_sha1_digest_base64 :: "jsstring \<Rightarrow> jsstring \<Rightarrow> jsstring" where
  "createHmac_sha1_digest_base64 key data = base64 (hmac_sha1 (utf8Write key) (utf8Write data))"

section \<open>The signer (\<^verbatim>\<open>src/index.js\<close>, lines 90 to 94)\<close>

fun join :: "jsstring \<Rightarrow> jsstring list \<Rightarrow> jsstring" where
  "join sep [] = []"
| "join sep [x] = x"
| "join sep (x # y # ys) = x @ sep @ join sep (y # ys)"

fun mapM :: "('a \<Rightarrow> error + 'b) \<Rightarrow> 'a list \<Rightarrow> error + 'b list" where
  "mapM f [] = Inr []"
| "mapM f (x # xs) = bind (f x) (\<lambda>y. bind (mapM f xs) (\<lambda>ys. Inr (y # ys)))"

definition canonicalizedQS :: "jsobject \<Rightarrow> error + jsstring" where
  "canonicalizedQS params =
     bind (mapM (\<lambda>key. bind (escaper (Str key)) (\<lambda>k.
                      bind (escaper (Get params key)) (\<lambda>v. Inr (k @ js ''='' @ v))))
             (sort (Object_keys params)))
       (\<lambda>pairs. Inr (join (js ''&'') pairs))"

text \<open>
  \<^verbatim>\<open>String.prototype.toUpperCase\<close> follows the Unicode case tables, which are not part of
  this development: the signer takes the case conversion as its first argument, and what
  is proved of it holds for every such function. \<open>toUpperCase_Latin\<close> is the conversion on
  strings of Basic Latin code units, where it is exact; it stands for \<^verbatim>\<open>toUpperCase\<close> where
  the method is the literal \<^verbatim>\<open>'GET'\<close>.
\<close>

definition toUpperCase_Latin :: "jsstring \<Rightarrow> jsstring" where
  "toUpperCase_Latin s =
     map (\<lambda>c. if 0x61 \<le> unat c \<and> unat c \<le> 0x7A then c - 0x20 else c) s"

definition signStr :: "(jsstring \<Rightarrow> jsstring) \<Rightarrow> jsobject \<Rightarrow> jsstring \<Rightarrow> error + jsstring" where
  "signStr toUpperCase params method =
     bind (canonicalizedQS params) (\<lambda>canonicalizedQS.
       bind (escaper (Str (js ''/''))) (\<lambda>slash.
         bind (escaper (Str canonicalizedQS)) (\<lambda>qs.
           Inr (toUpperCase method @ js ''&'' @ slash @ js ''&'' @ qs))))"

definition getSignature ::
  "(jsstring \<Rightarrow> jsstring) \<Rightarrow> jsobject \<Rightarrow> jsval \<Rightarrow> jsstring \<Rightarrow> error + jsstring" where
  "getSignature toUpperCase params secret method =
     bind (signStr toUpperCase params method) (\<lambda>signStr.
       Inr (createHmac_sha1_digest_base64 (ToString secret @ js ''&'') signStr))"

section \<open>The exported function (\<^verbatim>\<open>src/index.js\<close>, lines 7 to 63)\<close>

definition AFS_ENDPOINT :: jsstring where
  "AFS_ENDPOINT = js ''https://afs.aliyuncs.com''"

definition DEFAULTS :: jsobject where
  "DEFAULTS =
     [(js ''Action'', Str (js ''AuthenticateSig'')),
      (js ''Format'', Str (js ''JSON'')),
      (js ''RegionId'', Str (js ''cn-hangzhou'')),
      (js ''SignatureMethod'', Str (js ''HMAC-SHA1'')),
      (js ''SignatureVersion'', Str (js ''1.0'')),
      (js ''Version'', Str (js ''2018-01-12''))]"

text \<open>
  What the environment delivers during one call: the string returned by \<^verbatim>\<open>uuid.v4()\<close> and
  the string returned by \<^verbatim>\<open>new Date().toISOString()\<close>.
\<close>

record host =
  uuid_v4 :: jsstring
  toISOString :: jsstring

text \<open>The one call \<^verbatim>\<open>request.get(uri, {qs, timeout, json})\<close> that the function ends with.\<close>

record request_get =
  uri :: jsstring
  qs :: jsobject
  timeout :: nat
  json :: bool

text \<open>The object \<^verbatim>\<open>params\<close> of lines 47 to 53, before the signature is stored in it.\<close>

definition params_of :: "jsobject \<Rightarrow> host \<Rightarrow> jsobject \<Rightarrow> jsobject" where
  "params_of config h opts =
     Object_assign
       [(js ''AccessKeyId'', Get config (js ''AccessKeyId'')),
        (js ''AppKey'', Get config (js ''AppKey'')),
        (js ''SignatureNonce'', Str (replace 0x2D [] (uuid_v4 h))),
        (js ''Timestamp'', Str (toISOString h))]
       [DEFAULTS, opts]"

text \<open>
  The inner arrow function, closed over \<^verbatim>\<open>config\<close>. The comma expression of line 41 has the
  value of its last operand.
\<close>

definition verify :: "jsobject \<Rightarrow> host \<Rightarrow> jsobject \<Rightarrow> error + request_get" where
  "verify config h opts =
     (let Token = Get opts (js ''Token''); SessionId = Get opts (js ''SessionId'');
          Sig = Get opts (js ''Sig''); RemoteIp = Get opts (js ''RemoteIp'');
          AccessKeyId = Get config (js ''AccessKeyId''); AppKey = Get config (js ''AppKey'');
          AccessKeySecret = Get config (js ''AccessKeySecret'')
      in if \<not> ToBoolean AccessKeySecret then Inl (TypeError ''missing config'')
         else if \<not> (ToBoolean Token \<and> ToBoolean SessionId \<and> ToBoolean Sig \<and> ToBoolean RemoteIp)
         then Inl (TypeError ''missing param'')
         else
           let params = params_of config h opts
           in bind (getSignature toUpperCase_Latin params AccessKeySecret (js ''GET''))
                (\<lambda>Signature.
                   Inr \<lparr>uri = AFS_ENDPOINT,
                        qs = AList.update (js ''Signature'') (Str Signature) params,
                        timeout = 5000, json = True\<rparr>))"

text \<open>
  The outer arrow function: its body is the inner function, so calling it runs no check
  and raises nothing.
\<close>

definition module_exports :: "jsobject \<Rightarrow> error + (host \<Rightarrow> jsobject \<Rightarrow> error + request_get)" where
  "module_exports config = Inr (verify config)"

section \<open>Reference definitions\<close>

text \<open>
  \<^verbatim>\<open>String.prototype.isWellFormed\<close>: no surrogate is unpaired; and the code points of a
  string as its iterator yields them.
\<close>

fun isWellFormed :: "jsstring \<Rightarrow> bool" where
  "isWellFormed [] = True"
| "isWellFormed (c # cs) =
     (if isLeadingSurrogate c then
        (case cs of [] \<Rightarrow> False | d # ds \<Rightarrow> isTrailingSurrogate d \<and> isWellFormed ds)
      else \<not> isTrailingSurrogate c \<and> isWellFormed cs)"

fun code_points :: "jsstring \<Rightarrow> nat list" where
  "code_points [] = []"
| "code_points (c # cs) =
     (if isLeadingSurrogate c then
        (case cs of
           [] \<Rightarrow> [unat c]
         | d # ds \<Rightarrow>
             if isTrailingSurrogate d
             then UTF16SurrogatePairToCodePoint c d # code_points ds
             else unat c # code_points cs)
      else unat c # code_points cs)"

text \<open>
  The escaper as the specification words it: percent-encoding per RFC 3986, in one pass.
  A code point that is an unreserved character stands for itself; every other one becomes
  \<^verbatim>\<open>%XX\<close> for each octet of its UTF-8 form.
\<close>

definition unreserved :: "nat \<Rightarrow> bool" where
  "unreserved cp =
     ((0x41 \<le> cp \<and> cp \<le> 0x5A) \<or> (0x61 \<le> cp \<and> cp \<le> 0x7A) \<or> (0x30 \<le> cp \<and> cp \<le> 0x39)
      \<or> cp \<in> set (map of_char ''-_.~''))"

definition spec_escape_code_point :: "nat \<Rightarrow> jsstring" where
  "spec_escape_code_point cp = (if unreserved cp then [of_nat cp] else percentOctets cp)"

definition spec_escape :: "jsstring \<Rightarrow> jsstring" where
  "spec_escape s = concat (map spec_escape_code_point (code_points s))"

text \<open>
  The signer as the specification words it. \<open>rank\<close> is what the keys are compared by:
  \<^const>\<open>code_points\<close> for code point order, the key itself for code unit order.
\<close>

definition spec_canonical_query :: "(jsstring \<Rightarrow> 'k::linorder) \<Rightarrow> jsobject \<Rightarrow> jsstring" where
  "spec_canonical_query rank params =
     join (js ''&'')
       (map (\<lambda>(key, value). spec_escape key @ js ''='' @ spec_escape (ToString value))
          (sort_key (\<lambda>(key, value). rank key) params))"

definition spec_signature ::
  "(jsstring \<Rightarrow> 'k::linorder) \<Rightarrow> (jsstring \<Rightarrow> jsstring) \<Rightarrow> jsobject \<Rightarrow> jsval \<Rightarrow> jsstring
     \<Rightarrow> jsstring" where
  "spec_signature rank uppercase params secret method =
     base64 (hmac_sha1 (utf8Write (ToString secret @ js ''&''))
       (utf8Write (uppercase method @ js ''&'' @ spec_escape (js ''/'') @ js ''&''
          @ spec_escape (spec_canonical_query rank params))))"

text \<open>The parameter layers as the specification merges them: later layers override.\<close>

definition merged_layers ::
  "jsobject \<Rightarrow> jsobject \<Rightarrow> jsobject \<Rightarrow> jsobject \<Rightarrow> jsstring \<rightharpoonup> jsval" where
  "merged_layers defaults generated credentials options =
     map_of defaults ++ map_of generated ++ map_of credentials ++ map_of options"

section \<open>Example inputs\<close>

definition example_config :: jsobject where
  "example_config =
     [(js ''AccessKeyId'', Str (js ''testid'')),
      (js ''AppKey'', Str (js ''FFFF00000000016AB730'')),
      (js ''AccessKeySecret'', Str (js ''testsecret''))]"

definition example_host :: host where
  "example_host =
     \<lparr>uuid_v4 = js ''1b9d6bcd-bbfd-4b2d-9b5d-ab8dfbbd4bed'',
      toISOString = js ''2018-01-12T00:00:00.000Z''\<rparr>"

definition example_opts :: jsobject where
  "example_opts =
     [(js ''Token'', Str (js ''tok'')), (js ''SessionId'', Str (js ''sess'')),
      (js ''Sig'', Str (js ''sig'')), (js ''RemoteIp'', Str (js ''1.2.3.4''))]"


definition example_opts_signature :: jsobject where
  "example_opts_signature = example_opts @ [(js ''Signature'', Str (js ''x''))]"

definition example_opts_format :: jsobject where
  "example_opts_format = example_opts @ [(js ''Format'', Str (js ''XML''))]"

definition example_opts_proto :: jsobject where
  "example_opts_proto = example_opts @ [(js ''__proto__'', Str (js ''x''))]"

definition example_params_planes :: jsobject where
  "example_params_planes = [([0xE000], Str []), ([0xD800, 0xDC00], Str [])]"

section \<open>Auxiliary definitions for the proofs\<close>

text \<open>What \<^const>\<open>Encode\<close> emits for one code point, and the five replacements as one function.\<close>

definition Encode_code_point :: "nat \<Rightarrow> jsstring" where
  "Encode_code_point cp =
     (if cp < 0x80 \<and> uriUnescaped (of_nat cp) then [of_nat cp] else percentOctets cp)"

definition reescape :: "jsstring \<Rightarrow> jsstring" where
  "reescape s =
     replace 0x2A (js ''%2A'')
       (replace 0x29 (js ''%29'')
         (replace 0x28 (js ''%28'')
           (replace 0x27 (js ''%27'')
             (replace 0x21 (js ''%21'') s))))"

section \<open>Facts about code units\<close>

lemma unat_of_nat_small: "n < 65536 \<Longrightarrow> unat (of_nat n :: code_unit) = n"
  by (simp add: unat_of_nat)

lemma unat_js_char: "unat (of_nat (of_char c) :: code_unit) = of_char c"
proof -
  have "(of_char c :: nat) < 65536"
    using nat_of_char_less_256 [of c] by linarith
  then show ?thesis by (rule unat_of_nat_small)
qed

lemma unat_code_unit_less: "unat (c :: code_unit) < 65536"
  using unsigned_less [of c, where ?'a = nat] by simp

lemma uriUnescaped_unat:
  "uriUnescaped c =
     (let n = unat c
      in (0x41 \<le> n \<and> n \<le> 0x5A) \<or> (0x61 \<le> n \<and> n \<le> 0x7A) \<or> (0x30 \<le> n \<and> n \<le> 0x39)
         \<or> n \<in> {0x2D, 0x5F, 0x2E, 0x21, 0x7E, 0x2A, 0x27, 0x28, 0x29})"
  by (simp add: uriUnescaped_def js_def Let_def word_unat_eq_iff)

lemma unreserved_eval:
  "unreserved cp =
     ((0x41 \<le> cp \<and> cp \<le> 0x5A) \<or> (0x61 \<le> cp \<and> cp \<le> 0x7A) \<or> (0x30 \<le> cp \<and> cp \<le> 0x39)
      \<or> cp \<in> {0x2D, 0x5F, 0x2E, 0x7E})"
  by (simp add: unreserved_def)

lemma uriUnescaped_not_surrogate:
  "uriUnescaped c \<Longrightarrow> \<not> isLeadingSurrogate c \<and> \<not> isTrailingSurrogate c \<and> unat c < 0x80"
  by (auto simp: uriUnescaped_unat isLeadingSurrogate_def isTrailingSurrogate_def Let_def)

lemma pair_bounds:
  "isLeadingSurrogate c \<Longrightarrow> isTrailingSurrogate d \<Longrightarrow>
     0x10000 \<le> UTF16SurrogatePairToCodePoint c d \<and> UTF16SurrogatePairToCodePoint c d < 0x110000"
  unfolding isLeadingSurrogate_def isTrailingSurrogate_def UTF16SurrogatePairToCodePoint_def
  by arith

lemma Encode_Cons_unescaped:
  "uriUnescaped c \<Longrightarrow> Encode (c # cs) = bind (Encode cs) (\<lambda>r. Inr (c # r))"
  by simp

lemma Encode_code_point_unit:
  "\<not> isLeadingSurrogate c \<Longrightarrow> \<not> isTrailingSurrogate c \<Longrightarrow>
     Encode_code_point (unat c) = (if uriUnescaped c then [c] else percentOctets (unat c))"
  by (auto simp: Encode_code_point_def dest: uriUnescaped_not_surrogate)

lemma Encode_code_point_pair:
  "isLeadingSurrogate c \<Longrightarrow> isTrailingSurrogate d \<Longrightarrow>
     Encode_code_point (UTF16SurrogatePairToCodePoint c d) =
       percentOctets (UTF16SurrogatePairToCodePoint c d)"
  using pair_bounds [of c d] by (simp add: Encode_code_point_def)

lemma surrogates_disjoint: "isLeadingSurrogate c \<Longrightarrow> \<not> isTrailingSurrogate c"
  by (simp add: isLeadingSurrogate_def isTrailingSurrogate_def)

lemma Encode_eq:
  "Encode s =
     (if isWellFormed s then Inr (concat (map Encode_code_point (code_points s)))
      else Inl URIError)"
proof (induction s rule: isWellFormed.induct)
  case 1
  show ?case by simp
next
  case (2 c cs)
  show ?case
  proof (cases "isLeadingSurrogate c")
    case lead: True
    then have nu: "\<not> uriUnescaped c"
      using uriUnescaped_not_surrogate by blast
    show ?thesis
    proof (cases cs)
      case Nil
      with lead nu show ?thesis by simp
    next
      case (Cons d ds)
      show ?thesis
      proof (cases "isTrailingSurrogate d")
        case True
        with lead nu Cons "2.IH"(1) [OF lead Cons] show ?thesis
          by (simp add: bind_def Encode_code_point_pair)
      next
        case False
        with lead nu Cons show ?thesis by simp
      qed
    qed
  next
    case nolead: False
    show ?thesis
    proof (cases "isTrailingSurrogate c")
      case True
      then have "\<not> uriUnescaped c"
        using uriUnescaped_not_surrogate by blast
      with nolead True show ?thesis by simp
    next
      case False
      with nolead "2.IH"(2) [OF nolead] show ?thesis
        by (simp add: bind_def Encode_code_point_unit)
    qed
  qed
qed

lemma replace_Nil: "replace c r [] = []"
  by (simp add: replace_def)

lemma replace_append: "replace c r (xs @ ys) = replace c r xs @ replace c r ys"
  by (simp add: replace_def)

lemma replace_concat: "replace c r (concat xss) = concat (map (replace c r) xss)"
  by (induction xss) (simp_all add: replace_Nil replace_append)

lemma replace_absent: "c \<notin> set xs \<Longrightarrow> replace c r xs = xs"
  by (induction xs) (auto simp: replace_def)

lemma replace_single: "replace c r [x] = (if x = c then r else [x])"
  by (simp add: replace_def)

lemma hexDigit_unat:
  "n < 16 \<Longrightarrow> unat (hexDigit n) = (if n < 10 then 0x30 + n else 0x37 + n)"
  by (simp add: hexDigit_def unat_of_nat_small)

lemma hexDigit_range:
  "n < 16 \<Longrightarrow>
     (0x30 \<le> unat (hexDigit n) \<and> unat (hexDigit n) \<le> 0x39)
     \<or> (0x41 \<le> unat (hexDigit n) \<and> unat (hexDigit n) \<le> 0x46)"
  by (simp add: hexDigit_unat)

lemma percent_units:
  assumes "octet < 256" "u \<in> set (percent octet)"
  shows "unat u = 0x25 \<or> (0x30 \<le> unat u \<and> unat u \<le> 0x39) \<or> (0x41 \<le> unat u \<and> unat u \<le> 0x46)"
proof -
  have d: "octet div 16 < 16" and m: "octet mod 16 < 16"
    using assms(1) by simp_all
  from assms(2) consider "u = 0x25" | "u = hexDigit (octet div 16)" | "u = hexDigit (octet mod 16)"
    by (auto simp: percent_def)
  then show ?thesis
  proof cases
    case 1
    then show ?thesis by simp
  next
    case 2
    with hexDigit_range [OF d] show ?thesis by blast
  next
    case 3
    with hexDigit_range [OF m] show ?thesis by blast
  qed
qed

lemma utf8_octets: "cp < 0x110000 \<Longrightarrow> b \<in> set (utf8 cp) \<Longrightarrow> b < 256"
  by (auto simp: utf8_def split: if_splits)

lemma percentOctets_units:
  assumes "cp < 0x110000" "u \<in> set (percentOctets cp)"
  shows "unat u = 0x25 \<or> (0x30 \<le> unat u \<and> unat u \<le> 0x39) \<or> (0x41 \<le> unat u \<and> unat u \<le> 0x46)"
proof -
  from assms(2) obtain b where "b \<in> set (utf8 cp)" "u \<in> set (percent b)"
    by (auto simp: percentOctets_def)
  with utf8_octets [OF assms(1)] percent_units show ?thesis
    by blast
qed

lemma escaper_reescape: "escaper v = bind (Encode (ToString v)) (\<lambda>s. Inr (reescape s))"
  by (simp add: escaper_def reescape_def encodeURIComponent_def)

lemma reescape_append: "reescape (xs @ ys) = reescape xs @ reescape ys"
  by (simp add: reescape_def replace_append)

lemma reescape_concat: "reescape (concat xss) = concat (map reescape xss)"
  by (induction xss) (simp_all add: reescape_append, simp add: reescape_def replace_Nil)

lemma reescape_absent:
  assumes "\<And>u. u \<in> set s \<Longrightarrow> unat u \<notin> {0x21, 0x27, 0x28, 0x29, 0x2A}"
  shows "reescape s = s"
proof -
  have "c \<notin> set s" if "unat c \<in> {0x21, 0x27, 0x28, 0x29, 0x2A}" for c
    using assms that by blast
  then have "0x21 \<notin> set s" "0x27 \<notin> set s" "0x28 \<notin> set s" "0x29 \<notin> set s" "0x2A \<notin> set s"
    by simp_all
  then show ?thesis
    by (simp add: reescape_def replace_absent)
qed

lemma reescape_marks:
  "reescape [0x21] = js ''%21''" "reescape [0x27] = js ''%27''" "reescape [0x28] = js ''%28''"
  "reescape [0x29] = js ''%29''" "reescape [0x2A] = js ''%2A''"
  by (simp_all add: reescape_def replace_def js_def)

lemma spec_escape_marks:
  "spec_escape_code_point 0x21 = js ''%21''" "spec_escape_code_point 0x27 = js ''%27''"
  "spec_escape_code_point 0x28 = js ''%28''" "spec_escape_code_point 0x29 = js ''%29''"
  "spec_escape_code_point 0x2A = js ''%2A''"
  by (simp_all add: spec_escape_code_point_def unreserved_eval percentOctets_def utf8_def
      percent_def hexDigit_def js_def)

lemma unreserved_uriUnescaped:
  assumes "unreserved cp"
  shows "cp < 0x80 \<and> uriUnescaped (of_nat cp)"
proof -
  from assms have small: "cp < 0x80"
    unfolding unreserved_eval by auto
  then have "unat (of_nat cp :: code_unit) = cp"
    by (simp add: unat_of_nat_small)
  with assms have "uriUnescaped (of_nat cp)"
    unfolding unreserved_eval uriUnescaped_unat Let_def by auto
  with small show ?thesis ..
qed

lemma reescape_code_point:
  assumes "cp < 0x110000"
  shows "reescape (Encode_code_point cp) = spec_escape_code_point cp"
proof (cases "cp < 0x80 \<and> uriUnescaped (of_nat cp)")
  case True
  then have u: "unat (of_nat cp :: code_unit) = cp"
    by (simp add: unat_of_nat_small)
  show ?thesis
  proof (cases "cp \<in> {0x21, 0x27, 0x28, 0x29, 0x2A}")
    case mark: True
    with True show ?thesis
      by (auto simp: Encode_code_point_def reescape_marks spec_escape_marks)
  next
    case False
    with True u have "unreserved cp"
      by (auto simp: unreserved_eval uriUnescaped_unat Let_def)
    moreover from False u have "reescape [of_nat cp] = [of_nat cp]"
      by (intro reescape_absent) auto
    ultimately show ?thesis
      using True by (simp add: Encode_code_point_def spec_escape_code_point_def)
  qed
next
  case False
  then have "\<not> unreserved cp"
    using unreserved_uriUnescaped by blast
  moreover have "reescape (percentOctets cp) = percentOctets cp"
  proof (rule reescape_absent)
    fix u assume "u \<in> set (percentOctets cp)"
    from percentOctets_units [OF assms this]
    show "unat u \<notin> {0x21, 0x27, 0x28, 0x29, 0x2A}" by auto
  qed
  ultimately show ?thesis
    using False by (auto simp: Encode_code_point_def spec_escape_code_point_def)
qed

lemma code_points_bound: "cp \<in> set (code_points s) \<Longrightarrow> cp < 0x110000"
proof (induction s arbitrary: cp rule: code_points.induct)
  case 1
  then show ?case by simp
next
  case (2 c cs)
  have c: "unat c < 0x110000"
    using unat_code_unit_less [of c] by simp
  show ?case
  proof (cases "isLeadingSurrogate c")
    case lead: True
    show ?thesis
    proof (cases cs)
      case Nil
      with lead "2.prems" c show ?thesis by simp
    next
      case (Cons d ds)
      show ?thesis
      proof (cases "isTrailingSurrogate d")
        case True
        with lead Cons "2.prems"
        have "cp = UTF16SurrogatePairToCodePoint c d \<or> cp \<in> set (code_points ds)"
          by simp
        with "2.IH"(1) [OF lead Cons True] pair_bounds [OF lead True] show ?thesis
          by blast
      next
        case False
        with lead Cons "2.prems" have "cp = unat c \<or> cp \<in> set (code_points cs)"
          by simp
        with "2.IH"(2) [OF lead Cons False] c show ?thesis
          by blast
      qed
    qed
  next
    case False
    with "2.prems" have "cp = unat c \<or> cp \<in> set (code_points cs)"
      by simp
    with "2.IH"(3) [OF False] c show ?thesis
      by blast
  qed
qed

lemma escaper_Str_eq:
  "escaper (Str s) = (if isWellFormed s then Inr (spec_escape s) else Inl URIError)"
proof -
  have "map (\<lambda>cp. reescape (Encode_code_point cp)) (code_points s) =
        map spec_escape_code_point (code_points s)"
  proof (rule map_cong [OF refl])
    fix cp assume "cp \<in> set (code_points s)"
    then have "cp < 0x110000" by (rule code_points_bound)
    then show "reescape (Encode_code_point cp) = spec_escape_code_point cp"
      by (rule reescape_code_point)
  qed
  then have "concat (map (\<lambda>cp. reescape (Encode_code_point cp)) (code_points s)) = spec_escape s"
    unfolding spec_escape_def by (rule arg_cong)
  then have "reescape (concat (map Encode_code_point (code_points s))) = spec_escape s"
    by (simp add: reescape_concat o_def)
  then show ?thesis
    by (simp add: escaper_reescape Encode_eq bind_def)
qed

lemma escaper_eq:
  "escaper v =
     (if isWellFormed (ToString v) then Inr (spec_escape (ToString v)) else Inl URIError)"
  using escaper_Str_eq [of "ToString v"] by (simp add: escaper_def encodeURIComponent_def)

lemma spec_escape_units:
  assumes "u \<in> set (spec_escape s)"
  shows "unat u < 0x80"
proof -
  from assms obtain cp where cp: "cp \<in> set (code_points s)" "u \<in> set (spec_escape_code_point cp)"
    by (auto simp: spec_escape_def)
  show ?thesis
  proof (cases "unreserved cp")
    case True
    with unreserved_uriUnescaped [OF True] cp(2) show ?thesis
      by (simp add: spec_escape_code_point_def unat_of_nat_small)
  next
    case False
    with cp(2) have "u \<in> set (percentOctets cp)"
      by (simp add: spec_escape_code_point_def)
    from percentOctets_units [OF code_points_bound [OF cp(1)] this] show ?thesis
      by auto
  qed
qed

lemma isWellFormed_ascii: "(\<And>u. u \<in> set s \<Longrightarrow> unat u < 0x80) \<Longrightarrow> isWellFormed s"
proof (induction s)
  case Nil
  show ?case by simp
next
  case (Cons c cs)
  then have "unat c < 0x80" by simp
  then have "\<not> isLeadingSurrogate c" "\<not> isTrailingSurrogate c"
    by (simp_all add: isLeadingSurrogate_def isTrailingSurrogate_def)
  with Cons show ?case by simp
qed

section \<open>The signer\<close>

lemma mapM_cond:
  assumes "\<And>x. x \<in> set xs \<Longrightarrow> f x = (if P x then Inr (g x) else Inl e)"
  shows "mapM f xs = (if list_all P xs then Inr (map g xs) else Inl e)"
  using assms by (induction xs) (simp_all add: bind_def)

lemma sort_keys:
  assumes "distinct (map fst p)"
  shows "sort (map fst p) = map fst (sort_key fst p)"
proof (rule sorted_distinct_set_unique)
  show "sorted (sort (map fst p))" by simp
  show "distinct (sort (map fst p))" using assms by simp
  show "sorted (map fst (sort_key fst p))" by (rule sorted_sort_key)
  from assms have "distinct p" "inj_on fst (set p)"
    by (simp_all add: distinct_map)
  then show "distinct (map fst (sort_key fst p))"
    by (simp add: distinct_map)
  show "set (sort (map fst p)) = set (map fst (sort_key fst p))" by simp
qed

lemma Get_entry: "distinct (map fst p) \<Longrightarrow> (k, v) \<in> set p \<Longrightarrow> Get p k = v"
  by (simp add: Get_def)

lemma pair_step:
  "bind (escaper (Str key)) (\<lambda>k. bind (escaper value) (\<lambda>v. Inr (k @ js ''='' @ v))) =
     (if isWellFormed key \<and> isWellFormed (ToString value)
      then Inr (spec_escape key @ js ''='' @ spec_escape (ToString value))
      else Inl URIError)"
  by (simp add: escaper_eq bind_def)

lemma canonicalizedQS_eq:
  assumes "distinct (map fst params)"
  shows "canonicalizedQS params =
     (if list_all (\<lambda>(key, value). isWellFormed key \<and> isWellFormed (ToString value)) params
      then Inr (spec_canonical_query (\<lambda>key. key) params) else Inl URIError)"
proof -
  let ?P = "\<lambda>key. isWellFormed key \<and> isWellFormed (ToString (Get params key))"
  let ?g = "\<lambda>key. spec_escape key @ js ''='' @ spec_escape (ToString (Get params key))"
  have fst_eq: "(\<lambda>(key, value). key) = (fst :: jsstring \<times> jsval \<Rightarrow> jsstring)"
    by (simp add: fun_eq_iff)
  have "mapM (\<lambda>key. bind (escaper (Str key)) (\<lambda>k.
                  bind (escaper (Get params key)) (\<lambda>v. Inr (k @ js ''='' @ v))))
          (sort (Object_keys params)) =
        (if list_all ?P (sort (Object_keys params))
         then Inr (map ?g (sort (Object_keys params))) else Inl URIError)"
    by (rule mapM_cond) (rule pair_step)
  moreover have "list_all ?P (sort (Object_keys params)) =
      list_all (\<lambda>(key, value). isWellFormed key \<and> isWellFormed (ToString value)) params"
    using assms by (auto simp: list_all_iff Object_keys_def Get_entry)
  moreover have "map ?g (sort (Object_keys params)) =
      map (\<lambda>(key, value). spec_escape key @ js ''='' @ spec_escape (ToString value))
        (sort_key fst params)"
    unfolding Object_keys_def sort_keys [OF assms] map_map
    by (rule map_cong [OF refl]) (use assms in \<open>auto simp: Get_entry\<close>)
  ultimately show ?thesis
    by (simp add: canonicalizedQS_def spec_canonical_query_def bind_def fst_eq)
qed

lemma join_units:
  "u \<in> set (join sep xs) \<Longrightarrow> u \<in> set sep \<or> (\<exists>x \<in> set xs. u \<in> set x)"
  by (induction sep xs rule: join.induct) auto

lemma spec_canonical_query_units:
  assumes "u \<in> set (spec_canonical_query rank params)"
  shows "unat u < 0x80"
proof -
  from join_units [OF assms [unfolded spec_canonical_query_def]]
  consider "u \<in> set (js ''&'')"
    | key "value" where "u \<in> set (spec_escape key @ js ''='' @ spec_escape (ToString value))"
    by auto
  then show ?thesis
  proof cases
    case 1
    then show ?thesis by (simp add: js_def)
  next
    case 2
    then consider "u \<in> set (spec_escape key)" | "u \<in> set (js ''='')"
      | "u \<in> set (spec_escape (ToString value))"
      by auto
    then show ?thesis
      by cases (auto simp: js_def dest: spec_escape_units)
  qed
qed

lemma isWellFormed_slash: "isWellFormed (js ''/'')"
  by (simp add: js_def isLeadingSurrogate_def isTrailingSurrogate_def)

lemma signStr_eq:
  assumes "distinct (map fst params)"
  shows "signStr toUpperCase params method =
     (if list_all (\<lambda>(key, value). isWellFormed key \<and> isWellFormed (ToString value)) params
      then Inr (toUpperCase method @ js ''&'' @ spec_escape (js ''/'') @ js ''&''
                  @ spec_escape (spec_canonical_query (\<lambda>key. key) params))
      else Inl URIError)"
proof -
  have "isWellFormed (spec_canonical_query (\<lambda>key. key) params)"
    by (rule isWellFormed_ascii) (rule spec_canonical_query_units)
  then show ?thesis
    by (simp add: signStr_def canonicalizedQS_eq [OF assms] escaper_Str_eq isWellFormed_slash
        bind_def)
qed

lemma getSignature_eq:
  assumes "distinct (map fst params)"
  shows "getSignature toUpperCase params secret method =
     (if list_all (\<lambda>(key, value). isWellFormed key \<and> isWellFormed (ToString value)) params
      then Inr (spec_signature (\<lambda>key. key) toUpperCase params secret method)
      else Inl URIError)"
  by (simp add: getSignature_def signStr_eq [OF assms] spec_signature_def
      createHmac_sha1_digest_base64_def bind_def)

lemma getSignature_cong:
  assumes "distinct (map fst p)" "distinct (map fst q)" "set p = set q"
  shows "getSignature toUpperCase p secret method = getSignature toUpperCase q secret method"
proof -
  from assms have "map_of p = map_of q"
    by (simp add: map_of_inject_set)
  then have get: "Get p = Get q"
    by (simp add: Get_def fun_eq_iff)
  have "sort (Object_keys p) = sort (Object_keys q)"
  proof (rule sorted_distinct_set_unique)
    show "set (sort (Object_keys p)) = set (sort (Object_keys q))"
      using assms(3) by (simp add: Object_keys_def)
  qed (use assms in \<open>simp_all add: Object_keys_def\<close>)
  with get show ?thesis
    by (simp add: getSignature_def signStr_def canonicalizedQS_def)
qed

section \<open>The parameter object\<close>

lemma OrdinarySet_keys:
  "js ''__proto__'' \<notin> fst ` set obj \<Longrightarrow> js ''__proto__'' \<notin> fst ` set (OrdinarySet obj key v)"
  by (auto simp: OrdinarySet_def Object_keys_def dom_update)

lemma map_of_OrdinarySet:
  "js ''__proto__'' \<notin> fst ` set obj \<Longrightarrow>
     map_of (OrdinarySet obj key v) =
       (if key = js ''__proto__'' then map_of obj else (map_of obj)(key \<mapsto> v))"
  by (simp add: OrdinarySet_def Object_keys_def update_conv')

lemma assign_keys:
  assumes "js ''__proto__'' \<notin> fst ` set to"
  shows "js ''__proto__'' \<notin> fst ` set (foldl (\<lambda>to key. OrdinarySet to key (Get from key)) to ks)
     \<and> map_of (foldl (\<lambda>to key. OrdinarySet to key (Get from key)) to ks) k =
         (if k \<in> set ks \<and> k \<noteq> js ''__proto__'' then Some (Get from k) else map_of to k)"
  using assms
proof (induction ks arbitrary: to)
  case Nil
  then show ?case by simp
next
  case (Cons x xs)
  from Cons.prems have keys: "js ''__proto__'' \<notin> fst ` set (OrdinarySet to x (Get from x))"
    by (rule OrdinarySet_keys)
  from Cons.IH [OF keys] Cons.prems show ?case
    by (auto simp: map_of_OrdinarySet)
qed

lemma map_of_assign_source:
  assumes "js ''__proto__'' \<notin> fst ` set to"
  shows "map_of (foldl (\<lambda>to key. OrdinarySet to key (Get from key)) to (Object_keys from)) =
     map_of to ++ map_of (AList.delete (js ''__proto__'') from)"
proof
  fix k
  let ?r = "foldl (\<lambda>to key. OrdinarySet to key (Get from key)) to (Object_keys from)"
  have r: "map_of ?r k =
      (if k \<in> set (Object_keys from) \<and> k \<noteq> js ''__proto__'' then Some (Get from k)
       else map_of to k)"
    using assign_keys [OF assms] by blast
  show "map_of ?r k = (map_of to ++ map_of (AList.delete (js ''__proto__'') from)) k"
  proof (cases "k = js ''__proto__''")
    case True
    with r show ?thesis
      by (simp add: map_add_def delete_conv')
  next
    case False
    show ?thesis
    proof (cases "map_of from k")
      case None
      then have "k \<notin> set (Object_keys from)"
        by (simp add: Object_keys_def map_of_eq_None_iff)
      with None False show ?thesis
        by (simp add: r map_add_def delete_conv')
    next
      case (Some v)
      then have "k \<in> set (Object_keys from)"
        by (force simp: Object_keys_def dest: map_of_SomeD)
      with False have "map_of ?r k = Some (Get from k)"
        by (simp add: r)
      with Some False show ?thesis
        by (simp add: map_add_def Get_def delete_conv')
    qed
  qed
qed

lemma assign_source_keys:
  "js ''__proto__'' \<notin> fst ` set to \<Longrightarrow>
     js ''__proto__'' \<notin>
       fst ` set (foldl (\<lambda>to key. OrdinarySet to key (Get from key)) to (Object_keys from))"
  using assign_keys by blast

lemma map_of_Object_assign:
  "js ''__proto__'' \<notin> fst ` set target \<Longrightarrow>
     map_of (Object_assign target sources) =
       foldl (++) (map_of target) (map (\<lambda>from. map_of (AList.delete (js ''__proto__'') from)) sources)"
  unfolding Object_assign_def
proof (induction sources arbitrary: target)
  case Nil
  show ?case by simp
next
  case (Cons src sources)
  from Cons.IH [OF assign_source_keys [OF Cons.prems]] Cons.prems show ?case
    by (simp add: map_of_assign_source)
qed

lemma map_of_params_of:
  "map_of (params_of config h opts) =
     map_of [(js ''AccessKeyId'', Get config (js ''AccessKeyId'')),
             (js ''AppKey'', Get config (js ''AppKey'')),
             (js ''SignatureNonce'', Str (replace 0x2D [] (uuid_v4 h))),
             (js ''Timestamp'', Str (toISOString h))]
       ++ map_of DEFAULTS ++ map_of (AList.delete (js ''__proto__'') opts)"
proof -
  have "AList.delete (js ''__proto__'') DEFAULTS = DEFAULTS"
    by (simp add: DEFAULTS_def js_def)
  moreover have "js ''__proto__'' \<notin> fst ` set
      [(js ''AccessKeyId'', Get config (js ''AccessKeyId'')),
       (js ''AppKey'', Get config (js ''AppKey'')),
       (js ''SignatureNonce'', Str (replace 0x2D [] (uuid_v4 h))),
       (js ''Timestamp'', Str (toISOString h))]"
    by (simp add: js_def)
  ultimately show ?thesis
    unfolding params_of_def by (simp add: map_of_Object_assign)
qed

lemma params_of_merged:
  "map_of (params_of config h opts) =
     merged_layers DEFAULTS
       [(js ''SignatureNonce'', Str (replace 0x2D [] (uuid_v4 h))),
        (js ''Timestamp'', Str (toISOString h))]
       [(js ''AccessKeyId'', Get config (js ''AccessKeyId'')),
        (js ''AppKey'', Get config (js ''AppKey''))]
       (AList.delete (js ''__proto__'') opts)"
proof
  fix k
  show "map_of (params_of config h opts) k =
     merged_layers DEFAULTS
       [(js ''SignatureNonce'', Str (replace 0x2D [] (uuid_v4 h))),
        (js ''Timestamp'', Str (toISOString h))]
       [(js ''AccessKeyId'', Get config (js ''AccessKeyId'')),
        (js ''AppKey'', Get config (js ''AppKey''))]
       (AList.delete (js ''__proto__'') opts) k"
    by (simp add: map_of_params_of merged_layers_def map_add_def DEFAULTS_def js_def
        split: option.splits)
qed

lemma verify_Inr:
  assumes "verify config h opts = Inr r"
  shows "\<exists>sig. getSignature toUpperCase_Latin (params_of config h opts)
                 (Get config (js ''AccessKeySecret'')) (js ''GET'') = Inr sig
           \<and> r = \<lparr>uri = AFS_ENDPOINT,
                   qs = AList.update (js ''Signature'') (Str sig) (params_of config h opts),
                   timeout = 5000, json = True\<rparr>"
  using assms
  by (auto simp: verify_def Let_def bind_def split: if_splits sum.splits)

lemma distinct_OrdinarySet:
  "distinct (map fst obj) \<Longrightarrow> distinct (map fst (OrdinarySet obj key v))"
  by (simp add: OrdinarySet_def distinct_update)

lemma distinct_assign_keys:
  "distinct (map fst to) \<Longrightarrow>
     distinct (map fst (foldl (\<lambda>to key. OrdinarySet to key (Get from key)) to ks))"
  by (induction ks arbitrary: to) (simp_all add: distinct_OrdinarySet)

lemma distinct_Object_assign:
  "distinct (map fst target) \<Longrightarrow> distinct (map fst (Object_assign target sources))"
  unfolding Object_assign_def
  by (induction sources arbitrary: target) (simp_all add: distinct_assign_keys)

lemma distinct_params_of: "distinct (map fst (params_of config h opts))"
  unfolding params_of_def
  by (rule distinct_Object_assign) (simp add: js_def)

lemma update_absent: "k \<notin> fst ` set al \<Longrightarrow> AList.update k v al = al @ [(k, v)]"
  by (induction al) auto

lemma proto_other_keys:
  "js ''Signature'' \<noteq> js ''__proto__''" "js ''SignatureNonce'' \<noteq> js ''__proto__''"
  "js ''Timestamp'' \<noteq> js ''__proto__''" "js ''AccessKeyId'' \<noteq> js ''__proto__''"
  "js ''AppKey'' \<noteq> js ''__proto__''" "js ''Format'' \<noteq> js ''__proto__''"
  by (simp_all add: js_def)

lemma Signature_absent:
  assumes "js ''Signature'' \<notin> set (Object_keys opts)"
  shows "js ''Signature'' \<notin> fst ` set (params_of config h opts)"
proof -
  from assms have "map_of opts (js ''Signature'') = None"
    by (simp add: Object_keys_def map_of_eq_None_iff)
  then have "map_of (params_of config h opts) (js ''Signature'') = None"
    by (simp add: map_of_params_of map_add_def delete_conv' DEFAULTS_def js_def)
  then show ?thesis
    by (simp add: map_of_eq_None_iff)
qed

lemma Get_params_of_opts:
  assumes "map_of opts k = Some v" "k \<noteq> js ''__proto__''"
  shows "Get (params_of config h opts) k = v"
  using assms by (simp add: Get_def map_of_params_of map_add_def delete_conv')

lemma Get_update_other: "k \<noteq> l \<Longrightarrow> Get (AList.update l v al) k = Get al k"
  by (simp add: Get_def update_conv')

lemma Get_update_same: "Get (AList.update k v al) k = v"
  by (simp add: Get_def update_conv')

lemma verify_succeeds:
  assumes "ToBoolean (Get config (js ''AccessKeySecret''))"
    and "ToBoolean (Get opts (js ''Token''))" "ToBoolean (Get opts (js ''SessionId''))"
    and "ToBoolean (Get opts (js ''Sig''))" "ToBoolean (Get opts (js ''RemoteIp''))"
    and "list_all (\<lambda>(key, value). isWellFormed key \<and> isWellFormed (ToString value))
           (params_of config h opts)"
  shows "verify config h opts =
     Inr \<lparr>uri = AFS_ENDPOINT,
          qs = AList.update (js ''Signature'')
                 (Str (spec_signature (\<lambda>key. key) toUpperCase_Latin (params_of config h opts)
                         (Get config (js ''AccessKeySecret'')) (js ''GET'')))
                 (params_of config h opts),
          timeout = 5000, json = True\<rparr>"
  using assms
  by (simp add: verify_def Let_def getSignature_eq [OF distinct_params_of] bind_def)

lemmas params_of_eval =
  params_of_def Object_assign_def OrdinarySet_def Object_keys_def Get_def DEFAULTS_def
  replace_def js_def isLeadingSurrogate_def isTrailingSurrogate_def

lemma example_params_of:
  "list_all (\<lambda>(key, value). isWellFormed key \<and> isWellFormed (ToString value))
     (params_of example_config example_host example_opts)"
  by (simp add: example_config_def example_host_def example_opts_def params_of_eval)

lemma example_truthy:
  "ToBoolean (Get example_config (js ''AccessKeySecret''))"
  "ToBoolean (Get example_opts (js ''Token''))" "ToBoolean (Get example_opts (js ''SessionId''))"
  "ToBoolean (Get example_opts (js ''Sig''))" "ToBoolean (Get example_opts (js ''RemoteIp''))"
  by (simp_all add: example_config_def example_opts_def Get_def js_def)

lemmas example_verify =
  verify_succeeds [OF example_truthy example_params_of]




lemma example_signature_params_of:
  "list_all (\<lambda>(key, value). isWellFormed key \<and> isWellFormed (ToString value))
     (params_of example_config example_host example_opts_signature)"
  by (simp add: example_config_def example_host_def example_opts_def example_opts_signature_def
      params_of_eval)

lemma example_signature_truthy:
  "ToBoolean (Get example_opts_signature (js ''Token''))"
  "ToBoolean (Get example_opts_signature (js ''SessionId''))"
  "ToBoolean (Get example_opts_signature (js ''Sig''))"
  "ToBoolean (Get example_opts_signature (js ''RemoteIp''))"
  by (simp_all add: example_opts_signature_def example_opts_def Get_def js_def)

lemmas example_signature_verify =
  verify_succeeds [OF example_truthy(1) example_signature_truthy example_signature_params_of]

lemma example_format_truthy:
  "ToBoolean (Get example_opts_format (js ''Token''))"
  "ToBoolean (Get example_opts_format (js ''SessionId''))"
  "ToBoolean (Get example_opts_format (js ''Sig''))"
  "ToBoolean (Get example_opts_format (js ''RemoteIp''))"
  by (simp_all add: example_opts_format_def example_opts_def Get_def js_def)

lemma example_proto_params_of:
  "list_all (\<lambda>(key, value). isWellFormed key \<and> isWellFormed (ToString value))
     (params_of example_config example_host example_opts_proto)"
  by (simp add: example_config_def example_host_def example_opts_def example_opts_proto_def
      params_of_eval)

lemma example_proto_truthy:
  "ToBoolean (Get example_opts_proto (js ''Token''))"
  "ToBoolean (Get example_opts_proto (js ''SessionId''))"
  "ToBoolean (Get example_opts_proto (js ''Sig''))"
  "ToBoolean (Get example_opts_proto (js ''RemoteIp''))"
  by (simp_all add: example_opts_proto_def example_opts_def Get_def js_def)

lemmas example_proto_verify =
  verify_succeeds [OF example_truthy(1) example_proto_truthy example_proto_params_of]

lemma Get_params_of:
  assumes "k \<noteq> js ''__proto__''"
  shows "Get (params_of config h opts) k =
     (if k \<in> set (Object_keys opts) then Get opts k
      else if k \<in> set (Object_keys DEFAULTS) then Get DEFAULTS k
      else Get [(js ''AccessKeyId'', Get config (js ''AccessKeyId'')),
                (js ''AppKey'', Get config (js ''AppKey'')),
                (js ''SignatureNonce'', Str (replace 0x2D [] (uuid_v4 h))),
                (js ''Timestamp'', Str (toISOString h))] k)"
proof -
  have in_keys: "k \<in> set (Object_keys obj) \<longleftrightarrow> map_of obj k \<noteq> None" for obj :: jsobject
    by (simp add: Object_keys_def map_of_eq_None_iff)
  have del: "map_of (AList.delete (js ''__proto__'') opts) k = map_of opts k"
    using assms by (simp add: delete_conv')
  show ?thesis
  proof (cases "map_of opts k")
    case (Some v)
    then show ?thesis
      by (simp add: in_keys Get_def map_of_params_of map_add_def del)
  next
    case None
    show ?thesis
    proof (cases "map_of DEFAULTS k")
      case (Some v)
      with None show ?thesis
        by (simp add: in_keys Get_def map_of_params_of map_add_def del)
    next
      case none: None
      with None show ?thesis
        by (simp add: in_keys Get_def map_of_params_of map_add_def del del: map_of.simps)
    qed
  qed
qed

section \<open>The fixed parameters\<close>

lemma DEFAULTS_keys:
  "Object_keys DEFAULTS =
     [js ''Action'', js ''Format'', js ''RegionId'', js ''SignatureMethod'',
      js ''SignatureVersion'', js ''Version'']"
  by (simp add: DEFAULTS_def Object_keys_def)

lemma Get_DEFAULTS:
  "Get DEFAULTS (js ''Action'') = Str (js ''AuthenticateSig'')"
  "Get DEFAULTS (js ''Format'') = Str (js ''JSON'')"
  "Get DEFAULTS (js ''RegionId'') = Str (js ''cn-hangzhou'')"
  "Get DEFAULTS (js ''SignatureMethod'') = Str (js ''HMAC-SHA1'')"
  "Get DEFAULTS (js ''SignatureVersion'') = Str (js ''1.0'')"
  "Get DEFAULTS (js ''Version'') = Str (js ''2018-01-12'')"
  by (simp_all add: DEFAULTS_def Get_def js_def)

lemma proto_not_default: "js ''__proto__'' \<notin> set (Object_keys DEFAULTS)"
  by (simp add: DEFAULTS_def Object_keys_def js_def)

lemma Signature_not_default:
  "js ''Action'' \<noteq> js ''Signature''" "js ''Format'' \<noteq> js ''Signature''"
  "js ''RegionId'' \<noteq> js ''Signature''" "js ''SignatureMethod'' \<noteq> js ''Signature''"
  "js ''SignatureVersion'' \<noteq> js ''Signature''" "js ''Version'' \<noteq> js ''Signature''"
  "js ''SignatureNonce'' \<noteq> js ''Signature''" "js ''Timestamp'' \<noteq> js ''Signature''"
  "js ''AccessKeyId'' \<noteq> js ''Signature''" "js ''AppKey'' \<noteq> js ''Signature''"
  by (simp_all add: js_def)

section \<open>Evaluating HMAC-SHA1\<close>

text \<open>
  The compression function is evaluated block by block, for the two messages that the
  example with keys from two planes gives under the two key orders; both use the key
  \<^verbatim>\<open>s&\<close>.
\<close>

lemma expand_numeral:
  "expand (numeral n) ws =
     expand (pred_numeral n) (rotl 1 (ws ! 2 XOR ws ! 7 XOR ws ! 13 XOR ws ! 15) # ws)"
  by (simp add: numeral_eq_Suc)

lemma replicate_numeral: "replicate (numeral n) x = x # replicate (pred_numeral n) x"
  by (simp add: numeral_eq_Suc)

lemmas compress_eval =
  compress_def sha1_k_def sha1_f_def be32_def rotl_def add32_def expand_numeral

lemma compress_ipad:
  "compress sha1_init
     [69, 16, 54, 54, 54, 54, 54, 54, 54, 54, 54, 54, 54, 54, 54, 54, 54, 54, 54, 54, 54,
      54, 54, 54, 54, 54, 54, 54, 54, 54, 54, 54, 54, 54, 54, 54, 54, 54, 54, 54, 54, 54,
      54, 54, 54, 54, 54, 54, 54, 54, 54, 54, 54, 54, 54, 54, 54, 54, 54, 54, 54, 54, 54,
      54] =
   (2234299219, 2314888931, 3363346938, 2856206514, 2623107941)"
  by (simp add: compress_eval sha1_init_def)

lemma compress_opad:
  "compress sha1_init
     [47, 122, 92, 92, 92, 92, 92, 92, 92, 92, 92, 92, 92, 92, 92, 92, 92, 92, 92, 92, 92,
      92, 92, 92, 92, 92, 92, 92, 92, 92, 92, 92, 92, 92, 92, 92, 92, 92, 92, 92, 92, 92,
      92, 92, 92, 92, 92, 92, 92, 92, 92, 92, 92, 92, 92, 92, 92, 92, 92, 92, 92, 92, 92,
      92] =
   (1949624810, 554369771, 4003254608, 2085349496, 927865467)"
  by (simp add: compress_eval sha1_init_def)

lemma compress_inner_unit:
  "compress (2234299219, 2314888931, 3363346938, 2856206514, 2623107941)
     [71, 69, 84, 38, 37, 50, 70, 38, 37, 50, 53, 70, 48, 37, 50, 53, 57, 48, 37, 50, 53,
      56, 48, 37, 50, 53, 56, 48, 37, 51, 68, 37, 50, 54, 37, 50, 53, 69, 69, 37, 50, 53,
      56, 48, 37, 50, 53, 56, 48, 37, 51, 68, 128, 0, 0, 0, 0, 0, 0, 0, 0, 0, 3, 160] =
   (601633679, 2323859988, 49405389, 3043652481, 2653898451)"
  by (simp add: compress_eval)

lemma compress_outer_unit:
  "compress (1949624810, 554369771, 4003254608, 2085349496, 927865467)
     [35, 220, 51, 143, 138, 131, 74, 20, 2, 241, 221, 205, 181, 106, 115, 129, 158, 47,
      70, 211, 128, 0, 0, 0, 0, 0, 0, 0, 0, 0, 0, 0, 0, 0, 0, 0, 0, 0, 0, 0, 0, 0, 0, 0, 0,
      0, 0, 0, 0, 0, 0, 0, 0, 0, 0, 0, 0, 0, 0, 0, 0, 0, 2, 160] =
   (2593210398, 2193797815, 3198042965, 2186935457, 2799231289)"
  by (simp add: compress_eval)

lemma compress_inner_cp:
  "compress (2234299219, 2314888931, 3363346938, 2856206514, 2623107941)
     [71, 69, 84, 38, 37, 50, 70, 38, 37, 50, 53, 69, 69, 37, 50, 53, 56, 48, 37, 50, 53,
      56, 48, 37, 51, 68, 37, 50, 54, 37, 50, 53, 70, 48, 37, 50, 53, 57, 48, 37, 50, 53,
      56, 48, 37, 50, 53, 56, 48, 37, 51, 68, 128, 0, 0, 0, 0, 0, 0, 0, 0, 0, 3, 160] =
   (1049172995, 1569518974, 2813057139, 3230702809, 770059800)"
  by (simp add: compress_eval)

lemma compress_outer_cp:
  "compress (1949624810, 554369771, 4003254608, 2085349496, 927865467)
     [62, 137, 28, 3, 93, 140, 245, 126, 167, 171, 216, 115, 192, 144, 156, 217, 45, 230,
      46, 24, 128, 0, 0, 0, 0, 0, 0, 0, 0, 0, 0, 0, 0, 0, 0, 0, 0, 0, 0, 0, 0, 0, 0, 0, 0,
      0, 0, 0, 0, 0, 0, 0, 0, 0, 0, 0, 0, 0, 0, 0, 0, 0, 2, 160] =
   (891574273, 1173548100, 408859537, 3024564573, 2066396475)"
  by (simp add: compress_eval)

lemma hmac_unit:
  "hmac_sha1 [115, 38]
     [71, 69, 84, 38, 37, 50, 70, 38, 37, 50, 53, 70, 48, 37, 50, 53, 57, 48, 37, 50, 53,
      56, 48, 37, 50, 53, 56, 48, 37, 51, 68, 37, 50, 54, 37, 50, 53, 69, 69, 37, 50, 53,
      56, 48, 37, 50, 53, 56, 48, 37, 51, 68] =
   [154, 145, 64, 30, 130, 194, 178, 183, 190, 158, 67, 85, 130, 89, 252, 161, 166, 216,
      225, 57]"
  by (simp add: hmac_sha1_def sha1_def sha1_pad_def bytes32_def Let_def replicate_numeral
      compress_ipad [unfolded sha1_init_def] compress_opad [unfolded sha1_init_def]
      compress_inner_unit compress_outer_unit sha1_init_def)

lemma hmac_cp:
  "hmac_sha1 [115, 38]
     [71, 69, 84, 38, 37, 50, 70, 38, 37, 50, 53, 69, 69, 37, 50, 53, 56, 48, 37, 50, 53,
      56, 48, 37, 51, 68, 37, 50, 54, 37, 50, 53, 70, 48, 37, 50, 53, 57, 48, 37, 50, 53,
      56, 48, 37, 50, 53, 56, 48, 37, 51, 68] =
   [53, 36, 88, 1, 69, 242, 236, 68, 24, 94, 179, 145, 180, 71, 49, 93, 123, 42, 181, 59]"
  by (simp add: hmac_sha1_def sha1_def sha1_pad_def bytes32_def Let_def replicate_numeral
      compress_ipad [unfolded sha1_init_def] compress_opad [unfolded sha1_init_def]
      compress_inner_cp compress_outer_cp sha1_init_def)

lemmas spec_escape_eval =
  spec_escape_def spec_escape_code_point_def unreserved_eval percentOctets_def percent_def
  hexDigit_def utf8_def isLeadingSurrogate_def isTrailingSurrogate_def
  UTF16SurrogatePairToCodePoint_def

lemma planes_key: "utf8Write (ToString (Str (js ''s'')) @ js ''&'') = [115, 38]"
  by (simp add: js_def utf8_def isLeadingSurrogate_def isTrailingSurrogate_def)

lemma planes_query_unit:
  "spec_canonical_query (\<lambda>key. key) example_params_planes =
     js ''%F0%90%80%80=&%EE%80%80=''"
  by (simp add: spec_canonical_query_def example_params_planes_def spec_escape_eval js_def)

lemma planes_query_code_point:
  "spec_canonical_query code_points example_params_planes =
     js ''%EE%80%80=&%F0%90%80%80=''"
  by (simp add: spec_canonical_query_def example_params_planes_def spec_escape_eval js_def)

lemma planes_message_unit:
  "utf8Write (toUpperCase_Latin (js ''GET'') @ js ''&'' @ spec_escape (js ''/'') @ js ''&''
       @ spec_escape (js ''%F0%90%80%80=&%EE%80%80='')) =
     [71, 69, 84, 38, 37, 50, 70, 38, 37, 50, 53, 70, 48, 37, 50, 53, 57, 48, 37, 50, 53,
      56, 48, 37, 50, 53, 56, 48, 37, 51, 68, 37, 50, 54, 37, 50, 53, 69, 69, 37, 50, 53,
      56, 48, 37, 50, 53, 56, 48, 37, 51, 68]"
  by (simp add: toUpperCase_Latin_def spec_escape_eval js_def)

lemma planes_message_code_point:
  "utf8Write (toUpperCase_Latin (js ''GET'') @ js ''&'' @ spec_escape (js ''/'') @ js ''&''
       @ spec_escape (js ''%EE%80%80=&%F0%90%80%80='')) =
     [71, 69, 84, 38, 37, 50, 70, 38, 37, 50, 53, 69, 69, 37, 50, 53, 56, 48, 37, 50, 53,
      56, 48, 37, 51, 68, 37, 50, 54, 37, 50, 53, 70, 48, 37, 50, 53, 57, 48, 37, 50, 53,
      56, 48, 37, 50, 53, 56, 48, 37, 51, 68]"
  by (simp add: toUpperCase_Latin_def spec_escape_eval js_def)

lemma planes_signature_unit:
  "spec_signature (\<lambda>key. key) toUpperCase_Latin example_params_planes (Str (js ''s''))
     (js ''GET'') = js ''mpFAHoLCsre+nkNVgln8oabY4Tk=''"
  unfolding spec_signature_def planes_key planes_query_unit planes_message_unit hmac_unit
  by (simp add: base64Char_def js_def)

lemma planes_signature_code_point:
  "spec_signature code_points toUpperCase_Latin example_params_planes (Str (js ''s''))
     (js ''GET'') = js ''NSRYAUXy7EQYXrORtEcxXXsqtTs=''"
  unfolding spec_signature_def planes_key planes_query_code_point planes_message_code_point
    hmac_cp
  by (simp add: base64Char_def js_def)

lemma planes_well_formed:
  "distinct (map fst example_params_planes)"
  "list_all (\<lambda>(key, value). isWellFormed key \<and> isWellFormed (ToString value))
     example_params_planes"
  by (simp_all add: example_params_planes_def isLeadingSurrogate_def isTrailingSurrogate_def)

section \<open>The claims\<close>

text \<open>
  C1. For every parameter object (its keys pairwise distinct, its values converted to
  strings), secret and method: when every key and value is a string without unpaired
  surrogates, the signer returns
  \<^verbatim>\<open>base64(HMAC-SHA1(key = secret + "&", message = uppercase(method) + "&" + escape("/") + "&" + escape(Q)))\<close>,
  where \<open>Q\<close> lists the entries sorted ascending by key in the lexicographic order of
  UTF-16 code units, each rendered as \<^verbatim>\<open>escape(key) + "=" + escape(value)\<close>, joined with
  \<^verbatim>\<open>&\<close>; otherwise it raises \<^verbatim>\<open>URIError\<close>.
\<close>

theorem getSignature_spec:
  assumes "distinct (map fst params)"
  shows "getSignature toUpperCase params secret method =
     (if list_all (\<lambda>(key, value). isWellFormed key \<and> isWellFormed (ToString value)) params
      then Inr (spec_signature (\<lambda>key. key) toUpperCase params secret method)
      else Inl URIError)"
  using assms by (rule getSignature_eq)

theorem getSignature_spec_witness:
  "distinct (map fst example_params_planes)
   \<and> getSignature toUpperCase_Latin example_params_planes (Str (js ''s'')) (js ''GET'') =
       Inr (js ''mpFAHoLCsre+nkNVgln8oabY4Tk='')"
  using getSignature_spec [OF planes_well_formed(1), of toUpperCase_Latin "Str (js ''s'')" "js ''GET''"]
  by (simp add: planes_well_formed planes_signature_unit)

text \<open>
  As stated, with code point order and for every parameter object, C1 fails. The keys
  U+E000 and U+10000 (the surrogate pair D800 DC00) are sorted by \<^verbatim>\<open>sort()\<close> with the pair
  first, by code point with U+E000 first, and the two signatures differ; and a key that
  is an unpaired surrogate makes the signer raise instead of returning a signature.
\<close>

theorem getSignature_code_point_order:
  "getSignature toUpperCase_Latin [([0xD800], Str [])] (Str (js ''s'')) (js ''GET'') = Inl URIError
   \<and> getSignature toUpperCase_Latin example_params_planes (Str (js ''s'')) (js ''GET'') =
     Inr (js ''mpFAHoLCsre+nkNVgln8oabY4Tk='')
   \<and> spec_signature code_points toUpperCase_Latin example_params_planes (Str (js ''s''))
       (js ''GET'') = js ''NSRYAUXy7EQYXrORtEcxXXsqtTs=''
   \<and> getSignature toUpperCase_Latin example_params_planes (Str (js ''s'')) (js ''GET'') \<noteq>
     Inr (spec_signature code_points toUpperCase_Latin example_params_planes (Str (js ''s''))
            (js ''GET''))"
proof -
  have 1: "getSignature toUpperCase_Latin example_params_planes (Str (js ''s'')) (js ''GET'') =
     Inr (js ''mpFAHoLCsre+nkNVgln8oabY4Tk='')"
    by (simp add: getSignature_eq planes_well_formed planes_signature_unit)
  have "js ''mpFAHoLCsre+nkNVgln8oabY4Tk='' \<noteq> js ''NSRYAUXy7EQYXrORtEcxXXsqtTs=''"
    by (simp add: js_def)
  moreover have "getSignature toUpperCase_Latin [([0xD800], Str [])] (Str (js ''s''))
      (js ''GET'') = Inl URIError"
    by (simp add: getSignature_eq isLeadingSurrogate_def)
  ultimately show ?thesis
    unfolding 1 planes_signature_code_point by simp
qed

text \<open>
  C2. On a string without unpaired surrogates the escaper returns the RFC 3986
  percent-encoding of the string: every code point that is one of the unreserved characters
  \<^verbatim>\<open>A-Z a-z 0-9 - _ . ~\<close> stands for itself, and every other code point, among them
  \<^verbatim>\<open>! ' ( ) *\<close>, becomes \<^verbatim>\<open>%XX\<close> for each octet of its UTF-8 form. On a string with an
  unpaired surrogate it raises \<^verbatim>\<open>URIError\<close>. In particular \<^verbatim>\<open>escaper("!'()*")\<close> is
  \<^verbatim>\<open>"%21%27%28%29%2A"\<close> and \<^verbatim>\<open>escaper("")\<close> is \<^verbatim>\<open>""\<close>.
\<close>

theorem escaper_percent_encoding:
  "escaper (Str s) = (if isWellFormed s then Inr (spec_escape s) else Inl URIError)
   \<and> escaper (Str (js ''!'()*'')) = Inr (js ''%21%27%28%29%2A'')
   \<and> escaper (Str []) = Inr []"
proof (intro conjI)
  show "escaper (Str s) = (if isWellFormed s then Inr (spec_escape s) else Inl URIError)"
    by (rule escaper_Str_eq)
  show "escaper (Str (js ''!'()*'')) = Inr (js ''%21%27%28%29%2A'')"
    by (simp add: escaper_def encodeURIComponent_def uriUnescaped_unat Let_def bind_def
        replace_def js_def)
  show "escaper (Str []) = Inr []"
    by (simp add: escaper_def encodeURIComponent_def bind_def replace_def)
qed

text \<open>
  As stated, for all strings, C2 fails: the escaper is not total, since
  \<^verbatim>\<open>encodeURIComponent\<close> raises \<^verbatim>\<open>URIError\<close> on the one-unit string U+D800.
\<close>

theorem escaper_unpaired_surrogate: "escaper (Str [0xD800]) = Inl URIError"
  by (simp add: escaper_def encodeURIComponent_def uriUnescaped_unat isLeadingSurrogate_def
      Let_def bind_def)

text \<open>
  C3. For every call that sends a request and whose options have no key \<^verbatim>\<open>Signature\<close>:
  the signature is computed over the parameter object as it is before the signature is
  stored, that object has no \<^verbatim>\<open>Signature\<close> property, and the query sent is that object with
  the \<^verbatim>\<open>Signature\<close> property appended; so the parameters sent, minus \<^verbatim>\<open>Signature\<close>, are
  exactly the parameters signed.
\<close>

theorem signature_over_sent_parameters:
  assumes "verify config h opts = Inr r"
    and "js ''Signature'' \<notin> set (Object_keys opts)"
  shows "getSignature toUpperCase_Latin (params_of config h opts)
           (Get config (js ''AccessKeySecret'')) (js ''GET'') =
         Inr (ToString (Get (qs r) (js ''Signature'')))
   \<and> qs r = params_of config h opts @ [(js ''Signature'', Get (qs r) (js ''Signature''))]
   \<and> AList.delete (js ''Signature'') (qs r) = params_of config h opts
   \<and> js ''Signature'' \<notin> set (Object_keys (params_of config h opts))"
proof -
  from verify_Inr [OF assms(1)] obtain sig where
    sig: "getSignature toUpperCase_Latin (params_of config h opts)
            (Get config (js ''AccessKeySecret'')) (js ''GET'') = Inr sig"
    and r: "r = \<lparr>uri = AFS_ENDPOINT,
              qs = AList.update (js ''Signature'') (Str sig) (params_of config h opts),
              timeout = 5000, json = True\<rparr>"
    by blast
  have absent: "js ''Signature'' \<notin> fst ` set (params_of config h opts)"
    using assms(2) by (rule Signature_absent)
  then have del: "AList.delete (js ''Signature'') (params_of config h opts) =
      params_of config h opts"
    by (rule delete_id)
  have q: "qs r = AList.update (js ''Signature'') (Str sig) (params_of config h opts)"
    by (simp add: r)
  have g: "Get (qs r) (js ''Signature'') = Str sig"
    unfolding q by (rule Get_update_same)
  have 1: "getSignature toUpperCase_Latin (params_of config h opts)
             (Get config (js ''AccessKeySecret'')) (js ''GET'') =
           Inr (ToString (Get (qs r) (js ''Signature'')))"
    unfolding g using sig by simp
  have 2: "qs r = params_of config h opts @ [(js ''Signature'', Get (qs r) (js ''Signature''))]"
    unfolding g unfolding q by (rule update_absent [OF absent])
  have 3: "AList.delete (js ''Signature'') (qs r) = params_of config h opts"
    unfolding q delete_update_same by (rule del)
  have 4: "js ''Signature'' \<notin> set (Object_keys (params_of config h opts))"
    using absent by (simp add: Object_keys_def)
  show ?thesis
    by (intro conjI 1 2 3 4)
qed

theorem signature_over_sent_parameters_witness:
  "verify example_config example_host example_opts =
     Inr (projr (verify example_config example_host example_opts))
   \<and> js ''Signature'' \<notin> set (Object_keys example_opts)
   \<and> AList.delete (js ''Signature'')
         (qs (projr (verify example_config example_host example_opts))) =
       params_of example_config example_host example_opts"
proof -
  have h: "verify example_config example_host example_opts =
     Inr (projr (verify example_config example_host example_opts))"
    by (simp add: example_verify)
  have n: "js ''Signature'' \<notin> set (Object_keys example_opts)"
    by (simp add: example_opts_def Object_keys_def js_def)
  from signature_over_sent_parameters [OF h n] h n show ?thesis
    by blast
qed

text \<open>
  As stated, for every call, C3 fails: options with a key \<^verbatim>\<open>Signature\<close> put that property
  into the signed object, where it is part of the signing input, and the computed
  signature then replaces it in the query.
\<close>

theorem caller_signature_is_signed:
  "(case verify example_config example_host example_opts_signature of
      Inl e \<Rightarrow> False
    | Inr r \<Rightarrow>
        AList.delete (js ''Signature'') (qs r) \<noteq>
          params_of example_config example_host example_opts_signature
        \<and> Get (params_of example_config example_host example_opts_signature) (js ''Signature'')
            = Str (js ''x''))"
proof -
  have m: "map_of example_opts_signature (js ''Signature'') = Some (Str (js ''x''))"
    by (simp add: example_opts_signature_def example_opts_def js_def)
  then have g: "Get (params_of example_config example_host example_opts_signature)
      (js ''Signature'') = Str (js ''x'')"
    by (rule Get_params_of_opts) (rule proto_other_keys)
  have "Get (AList.delete (js ''Signature'') al) (js ''Signature'') = Undefined" for al
    by (simp add: Get_def delete_conv')
  with g have "AList.delete (js ''Signature'') al \<noteq>
      params_of example_config example_host example_opts_signature" for al
    by (metis jsval.distinct(1))
  with g show ?thesis
    by (simp add: example_signature_verify)
qed

text \<open>
  C4. Construction runs no check and never fails: it returns the verification function.
  When \<^verbatim>\<open>AccessKeySecret\<close> is missing or empty, every call of that function fails with
  \<^verbatim>\<open>TypeError('missing config')\<close>, raised at call time before anything else is done.
\<close>

theorem module_exports_config:
  "module_exports config = Inr (verify config)
   \<and> (\<not> ToBoolean (Get config (js ''AccessKeySecret'')) \<longrightarrow>
        verify config h opts = Inl (TypeError ''missing config''))"
  by (simp add: module_exports_def verify_def Let_def)

theorem module_exports_config_witness:
  "\<not> ToBoolean (Get [(js ''AccessKeySecret'', Str [])] (js ''AccessKeySecret''))
   \<and> module_exports [(js ''AccessKeySecret'', Str [])] =
       Inr (verify [(js ''AccessKeySecret'', Str [])])
   \<and> verify [(js ''AccessKeySecret'', Str [])] example_host example_opts =
       Inl (TypeError ''missing config'')"
proof -
  have h: "\<not> ToBoolean (Get [(js ''AccessKeySecret'', Str [])] (js ''AccessKeySecret''))"
    by (simp add: Get_def)
  from module_exports_config [of "[(js ''AccessKeySecret'', Str [])]" example_host example_opts] h
  show ?thesis by blast
qed

text \<open>
  As stated, with the error raised at construction, C4 fails: constructing with an empty
  configuration, where all three credentials are missing, raises nothing.
\<close>

theorem module_exports_no_check:
  "\<not> ToBoolean (Get [] (js ''AccessKeyId'')) \<and> \<not> ToBoolean (Get [] (js ''AppKey''))
   \<and> \<not> ToBoolean (Get [] (js ''AccessKeySecret''))
   \<and> module_exports [] \<noteq> Inl (TypeError ''missing config'')"
  by (simp add: module_exports_def Get_def)

text \<open>
  C5. If any of \<^verbatim>\<open>Token\<close>, \<^verbatim>\<open>SessionId\<close>, \<^verbatim>\<open>Sig\<close>, \<^verbatim>\<open>RemoteIp\<close> is missing or empty, the call
  raises a \<^verbatim>\<open>TypeError\<close> before signing and sends no request: \<^verbatim>\<open>'missing param'\<close> when
  \<^verbatim>\<open>AccessKeyId\<close>, \<^verbatim>\<open>AppKey\<close> and \<^verbatim>\<open>AccessKeySecret\<close> are all present and not empty,
  \<^verbatim>\<open>'missing config'\<close> when \<^verbatim>\<open>AccessKeySecret\<close> is missing or empty, because the
  configuration is checked first, at call time.
\<close>

theorem verify_missing_param:
  assumes "\<not> (ToBoolean (Get opts (js ''Token'')) \<and> ToBoolean (Get opts (js ''SessionId''))
              \<and> ToBoolean (Get opts (js ''Sig'')) \<and> ToBoolean (Get opts (js ''RemoteIp'')))"
  shows "(ToBoolean (Get config (js ''AccessKeyId'')) \<and> ToBoolean (Get config (js ''AppKey''))
          \<and> ToBoolean (Get config (js ''AccessKeySecret'')) \<longrightarrow>
            verify config h opts = Inl (TypeError ''missing param''))
   \<and> (\<not> ToBoolean (Get config (js ''AccessKeySecret'')) \<longrightarrow>
            verify config h opts = Inl (TypeError ''missing config''))
   \<and> (\<exists>message. verify config h opts = Inl (TypeError message))"
  using assms by (simp add: verify_def Let_def)

theorem verify_missing_param_witness:
  "\<not> (ToBoolean (Get (AList.update (js ''Sig'') (Str []) example_opts) (js ''Token''))
       \<and> ToBoolean (Get (AList.update (js ''Sig'') (Str []) example_opts) (js ''SessionId''))
       \<and> ToBoolean (Get (AList.update (js ''Sig'') (Str []) example_opts) (js ''Sig''))
       \<and> ToBoolean (Get (AList.update (js ''Sig'') (Str []) example_opts) (js ''RemoteIp'')))
   \<and> ToBoolean (Get example_config (js ''AccessKeyId''))
   \<and> ToBoolean (Get example_config (js ''AppKey''))
   \<and> ToBoolean (Get example_config (js ''AccessKeySecret''))
   \<and> verify example_config example_host (AList.update (js ''Sig'') (Str []) example_opts) =
       Inl (TypeError ''missing param'')
   \<and> \<not> ToBoolean (Get [(js ''AccessKeyId'', Str (js ''testid''))] (js ''AccessKeySecret''))
   \<and> verify [(js ''AccessKeyId'', Str (js ''testid''))] example_host
         (AList.update (js ''Sig'') (Str []) example_opts) =
       Inl (TypeError ''missing config'')"
proof -
  have h: "\<not> (ToBoolean (Get (AList.update (js ''Sig'') (Str []) example_opts) (js ''Token''))
       \<and> ToBoolean (Get (AList.update (js ''Sig'') (Str []) example_opts) (js ''SessionId''))
       \<and> ToBoolean (Get (AList.update (js ''Sig'') (Str []) example_opts) (js ''Sig''))
       \<and> ToBoolean (Get (AList.update (js ''Sig'') (Str []) example_opts) (js ''RemoteIp'')))"
    by (simp add: Get_update_same)
  have c: "ToBoolean (Get example_config (js ''AccessKeyId''))"
    "ToBoolean (Get example_config (js ''AppKey''))"
    "ToBoolean (Get example_config (js ''AccessKeySecret''))"
    by (simp_all add: example_config_def Get_def js_def)
  have n: "\<not> ToBoolean (Get [(js ''AccessKeyId'', Str (js ''testid''))] (js ''AccessKeySecret''))"
    by (simp add: Get_def js_def)
  from verify_missing_param [OF h, of example_config example_host] c
  have 1: "verify example_config example_host
      (AList.update (js ''Sig'') (Str []) example_opts) = Inl (TypeError ''missing param'')"
    by blast
  from verify_missing_param [OF h, of "[(js ''AccessKeyId'', Str (js ''testid''))]" example_host] n
  have 2: "verify [(js ''AccessKeyId'', Str (js ''testid''))] example_host
      (AList.update (js ''Sig'') (Str []) example_opts) = Inl (TypeError ''missing config'')"
    by blast
  show ?thesis
    by (intro conjI h c n 1 2)
qed

text \<open>
  As stated, with the parameter error in every such call, C5 fails: with an empty
  configuration and empty options the error raised is the one for the configuration.
\<close>

theorem verify_missing_param_and_config:
  "\<not> ToBoolean (Get [] (js ''Token''))
   \<and> verify [] example_host [] = Inl (TypeError ''missing config'')
   \<and> verify [] example_host [] \<noteq> Inl (TypeError ''missing param'')"
  by (simp add: verify_def Get_def)

text \<open>
  C6. The parameter object of a call holds, as a map from keys to values, the merge of
  four layers in the order fixed defaults, generated values (nonce, timestamp),
  credential fields, caller-supplied options, a later layer overriding an earlier one on
  a key collision, where the last layer is the caller's options without an own key
  \<^verbatim>\<open>__proto__\<close>; in particular every option of the caller under another key is in the
  object with the caller's value. (The code assigns the defaults after the credential and
  generated fields; the three layers have no key in common.)
\<close>

theorem params_of_layers:
  "map_of (params_of config h opts) =
     merged_layers DEFAULTS
       [(js ''SignatureNonce'', Str (replace 0x2D [] (uuid_v4 h))),
        (js ''Timestamp'', Str (toISOString h))]
       [(js ''AccessKeyId'', Get config (js ''AccessKeyId'')),
        (js ''AppKey'', Get config (js ''AppKey''))]
       (AList.delete (js ''__proto__'') opts)
   \<and> (\<forall>k v. k \<noteq> js ''__proto__'' \<longrightarrow> map_of opts k = Some v \<longrightarrow>
          map_of (params_of config h opts) k = Some v)"
proof (intro conjI allI impI)
  show "map_of (params_of config h opts) =
     merged_layers DEFAULTS
       [(js ''SignatureNonce'', Str (replace 0x2D [] (uuid_v4 h))),
        (js ''Timestamp'', Str (toISOString h))]
       [(js ''AccessKeyId'', Get config (js ''AccessKeyId'')),
        (js ''AppKey'', Get config (js ''AppKey''))]
       (AList.delete (js ''__proto__'') opts)"
    by (rule params_of_merged)
next
  fix k v assume "k \<noteq> js ''__proto__''" "map_of opts k = Some v"
  then show "map_of (params_of config h opts) k = Some v"
    by (simp add: map_of_params_of map_add_def delete_conv')
qed

text \<open>
  The witness is a call that passes both checks and overrides the default \<^verbatim>\<open>Format\<close>.
\<close>

theorem params_of_layers_witness:
  "ToBoolean (Get example_config (js ''AccessKeySecret''))
   \<and> ToBoolean (Get example_opts_format (js ''Token''))
   \<and> ToBoolean (Get example_opts_format (js ''SessionId''))
   \<and> ToBoolean (Get example_opts_format (js ''Sig''))
   \<and> ToBoolean (Get example_opts_format (js ''RemoteIp''))
   \<and> js ''Format'' \<noteq> js ''__proto__''
   \<and> map_of example_opts_format (js ''Format'') = Some (Str (js ''XML''))
   \<and> map_of (params_of example_config example_host example_opts_format) (js ''Format'') =
       Some (Str (js ''XML''))"
proof -
  have m: "map_of example_opts_format (js ''Format'') = Some (Str (js ''XML''))"
    by (simp add: example_opts_format_def example_opts_def js_def)
  have n: "js ''Format'' \<noteq> js ''__proto__''"
    by (rule proto_other_keys)
  from params_of_layers [of example_config example_host example_opts_format] n m
  have "map_of (params_of example_config example_host example_opts_format) (js ''Format'') =
      Some (Str (js ''XML''))"
    by blast
  then show ?thesis
    by (intro conjI example_truthy(1) example_format_truthy n m)
qed

text \<open>
  As stated, for every caller-supplied option, C6 fails: in a call that passes both
  checks with an own option \<^verbatim>\<open>__proto__\<close>, \<^verbatim>\<open>Object.assign\<close> hands that key to the setter
  inherited from \<^verbatim>\<open>Object.prototype\<close>, and neither the parameter object nor the query
  sent has it, while the merge of the four layers has.
\<close>

theorem params_of_drops_proto:
  "map_of example_opts_proto (js ''__proto__'') = Some (Str (js ''x''))
   \<and> map_of (params_of example_config example_host example_opts_proto) (js ''__proto__'') = None
   \<and> map_of (params_of example_config example_host example_opts_proto) \<noteq>
       merged_layers DEFAULTS
         [(js ''SignatureNonce'', Str (replace 0x2D [] (uuid_v4 example_host))),
          (js ''Timestamp'', Str (toISOString example_host))]
         [(js ''AccessKeyId'', Get example_config (js ''AccessKeyId'')),
          (js ''AppKey'', Get example_config (js ''AppKey''))]
         example_opts_proto
   \<and> (case verify example_config example_host example_opts_proto of
         Inl e \<Rightarrow> False
       | Inr r \<Rightarrow> map_of (qs r) (js ''__proto__'') = None)"
proof -
  have m: "map_of example_opts_proto (js ''__proto__'') = Some (Str (js ''x''))"
    by (simp add: example_opts_proto_def example_opts_def js_def)
  have p: "map_of (params_of example_config example_host example_opts_proto) (js ''__proto__'') =
      None"
    by (simp add: map_of_params_of map_add_def delete_conv' DEFAULTS_def js_def)
  from m have "merged_layers DEFAULTS
         [(js ''SignatureNonce'', Str (replace 0x2D [] (uuid_v4 example_host))),
          (js ''Timestamp'', Str (toISOString example_host))]
         [(js ''AccessKeyId'', Get example_config (js ''AccessKeyId'')),
          (js ''AppKey'', Get example_config (js ''AppKey''))]
         example_opts_proto (js ''__proto__'') = Some (Str (js ''x''))"
    by (simp add: merged_layers_def)
  with p have d: "map_of (params_of example_config example_host example_opts_proto) \<noteq>
       merged_layers DEFAULTS
         [(js ''SignatureNonce'', Str (replace 0x2D [] (uuid_v4 example_host))),
          (js ''Timestamp'', Str (toISOString example_host))]
         [(js ''AccessKeyId'', Get example_config (js ''AccessKeyId'')),
          (js ''AppKey'', Get example_config (js ''AppKey''))]
         example_opts_proto"
    by (metis option.distinct(1))
  have "js ''__proto__'' \<noteq> js ''Signature''"
    by (simp add: js_def)
  with p have v: "(case verify example_config example_host example_opts_proto of
         Inl e \<Rightarrow> False
       | Inr r \<Rightarrow> map_of (qs r) (js ''__proto__'') = None)"
    by (simp add: example_proto_verify update_conv')
  show ?thesis
    by (intro conjI m p d v)
qed

text \<open>
  C7. Two parameter objects with the same entries, inserted in whatever order, have the
  same signature under every secret and method: the signer reads the object only through
  its sorted keys and its property values. The witness is
  \<^verbatim>\<open>sign({b:1,a:2}, s) = sign({a:2,b:1}, s)\<close>.
\<close>

theorem getSignature_insertion_order:
  assumes "distinct (map fst p)" "distinct (map fst q)" "set p = set q"
  shows "getSignature toUpperCase p secret method = getSignature toUpperCase q secret method"
  using assms by (rule getSignature_cong)

theorem getSignature_insertion_order_witness:
  "distinct (map fst [(js ''b'', Str (js ''1'')), (js ''a'', Str (js ''2''))])
   \<and> distinct (map fst [(js ''a'', Str (js ''2'')), (js ''b'', Str (js ''1''))])
   \<and> set [(js ''b'', Str (js ''1'')), (js ''a'', Str (js ''2''))] =
       set [(js ''a'', Str (js ''2'')), (js ''b'', Str (js ''1''))]
   \<and> getSignature toUpperCase_Latin [(js ''b'', Str (js ''1'')), (js ''a'', Str (js ''2''))]
         (Str (js ''s'')) (js ''GET'') =
       getSignature toUpperCase_Latin [(js ''a'', Str (js ''2'')), (js ''b'', Str (js ''1''))]
         (Str (js ''s'')) (js ''GET'')"
proof -
  have 1: "distinct (map fst [(js ''b'', Str (js ''1'')), (js ''a'', Str (js ''2''))])"
    by (simp add: js_def)
  have 2: "distinct (map fst [(js ''a'', Str (js ''2'')), (js ''b'', Str (js ''1''))])"
    by (simp add: js_def)
  have 3: "set [(js ''b'', Str (js ''1'')), (js ''a'', Str (js ''2''))] =
           set [(js ''a'', Str (js ''2'')), (js ''b'', Str (js ''1''))]"
    by auto
  show ?thesis
    by (intro conjI 1 2 3 getSignature_insertion_order [OF 1 2 3])
qed

text \<open>
  C9. Every call that succeeds ends in one \<^verbatim>\<open>request.get\<close> to \<^verbatim>\<open>https://afs.aliyuncs.com\<close>
  with a timeout of 5000 ms and JSON decoding, and its query has, for each of the six
  fixed parameters \<^verbatim>\<open>Action=AuthenticateSig\<close>, \<^verbatim>\<open>Format=JSON\<close>, \<^verbatim>\<open>RegionId=cn-hangzhou\<close>,
  \<^verbatim>\<open>SignatureMethod=HMAC-SHA1\<close>, \<^verbatim>\<open>SignatureVersion=1.0\<close>, \<^verbatim>\<open>Version=2018-01-12\<close>, the
  caller's value when the options have that key and the fixed value otherwise.
\<close>

theorem verify_request:
  assumes "verify config h opts = Inr r"
  shows "uri r = js ''https://afs.aliyuncs.com'' \<and> timeout r = 5000 \<and> json r
   \<and> (\<forall>(k, v) \<in> set [(''Action'', ''AuthenticateSig''), (''Format'', ''JSON''),
                       (''RegionId'', ''cn-hangzhou''), (''SignatureMethod'', ''HMAC-SHA1''),
                       (''SignatureVersion'', ''1.0''), (''Version'', ''2018-01-12'')].
         Get (qs r) (js k) =
           (if js k \<in> set (Object_keys opts) then Get opts (js k) else Str (js v)))"
proof -
  from verify_Inr [OF assms] obtain sig where
    r: "r = \<lparr>uri = AFS_ENDPOINT,
              qs = AList.update (js ''Signature'') (Str sig) (params_of config h opts),
              timeout = 5000, json = True\<rparr>"
    by blast
  have get: "Get (AList.update (js ''Signature'') (Str sig) (params_of config h opts)) k =
      (if k \<in> set (Object_keys opts) then Get opts k else Get DEFAULTS k)"
    if "k \<noteq> js ''Signature''" "k \<in> set (Object_keys DEFAULTS)" for k
  proof -
    from that(2) proto_not_default have "k \<noteq> js ''__proto__''"
      by blast
    with that show ?thesis
      by (simp add: Get_update_other Get_params_of)
  qed
  have "Get (qs r) (js ''Action'') =
      (if js ''Action'' \<in> set (Object_keys opts) then Get opts (js ''Action'')
       else Str (js ''AuthenticateSig''))"
    unfolding r by (simp add: get Signature_not_default DEFAULTS_keys Get_DEFAULTS)
  moreover have "Get (qs r) (js ''Format'') =
      (if js ''Format'' \<in> set (Object_keys opts) then Get opts (js ''Format'')
       else Str (js ''JSON''))"
    unfolding r by (simp add: get Signature_not_default DEFAULTS_keys Get_DEFAULTS)
  moreover have "Get (qs r) (js ''RegionId'') =
      (if js ''RegionId'' \<in> set (Object_keys opts) then Get opts (js ''RegionId'')
       else Str (js ''cn-hangzhou''))"
    unfolding r by (simp add: get Signature_not_default DEFAULTS_keys Get_DEFAULTS)
  moreover have "Get (qs r) (js ''SignatureMethod'') =
      (if js ''SignatureMethod'' \<in> set (Object_keys opts) then Get opts (js ''SignatureMethod'')
       else Str (js ''HMAC-SHA1''))"
    unfolding r by (simp add: get Signature_not_default DEFAULTS_keys Get_DEFAULTS)
  moreover have "Get (qs r) (js ''SignatureVersion'') =
      (if js ''SignatureVersion'' \<in> set (Object_keys opts)
       then Get opts (js ''SignatureVersion'') else Str (js ''1.0''))"
    unfolding r by (simp add: get Signature_not_default DEFAULTS_keys Get_DEFAULTS)
  moreover have "Get (qs r) (js ''Version'') =
      (if js ''Version'' \<in> set (Object_keys opts) then Get opts (js ''Version'')
       else Str (js ''2018-01-12''))"
    unfolding r by (simp add: get Signature_not_default DEFAULTS_keys Get_DEFAULTS)
  moreover have "uri r = js ''https://afs.aliyuncs.com''" "timeout r = 5000" "json r"
    by (simp_all add: r AFS_ENDPOINT_def)
  ultimately show ?thesis
    by simp
qed

theorem verify_request_witness:
  "verify example_config example_host example_opts =
     Inr (projr (verify example_config example_host example_opts))
   \<and> uri (projr (verify example_config example_host example_opts)) =
       js ''https://afs.aliyuncs.com''
   \<and> timeout (projr (verify example_config example_host example_opts)) = 5000
   \<and> json (projr (verify example_config example_host example_opts))
   \<and> Get (qs (projr (verify example_config example_host example_opts))) (js ''Version'') =
       Str (js ''2018-01-12'')"
proof -
  have h: "verify example_config example_host example_opts =
     Inr (projr (verify example_config example_host example_opts))"
    by (simp add: example_verify)
  have "js ''Version'' \<notin> set (Object_keys example_opts)"
    by (simp add: example_opts_def Object_keys_def js_def)
  with verify_request [OF h] h show ?thesis
    by simp
qed



end
